theory Spec2Isabelle
  imports Complex_Main
begin

section \<open>Driving-time radius calculator: the data model\<close>

text \<open>
  The development embeds the class \<open>DrivingTimeRadiusCalculator\<close> of
  \<open>drivingTimeRadiusCalculator.py\<close>.  A Python int is an \<open>int\<close> or a \<open>nat\<close>.  A float held
  in a data frame or in a reply is the real number it stands for, so these are finite
  floats, and comparing them is exact.  The arithmetic of \<open>get_color_for_time\<close> is that of
  binary64, with its rounding, its infinities and its nan.  A pandas data frame is the
  list of its rows, in row order; a row is a record with one field per column.  The decoded JSON
  replies of the two HTTP providers are records of the shape the code subscripts; a key
  the code only tests with \<open>in\<close> is an \<open>option\<close> field.
\<close>

text \<open>The Python exceptions the modelled code raises.\<close>

datatype error =
  IndexError | TypeError | ZeroDivisionError | AttributeError | ValueError | OverflowError

text \<open>A boundary polygon, as the list of its vertices.\<close>

type_synonym geometry = "(real \<times> real) list"

text \<open>A row of \<open>zip_gdf\<close>: the columns \<open>ZCTA5\<close> and \<open>geometry\<close>.\<close>

record area_record =
  ZCTA5 :: string
  area_geometry :: geometry

text \<open>A row of the results frame: the dictionary appended in \<open>calculate_driving_times\<close>.\<close>

record travel_result =
  zip_code :: string
  state :: string
  driving_time_minutes :: real
  geometry :: geometry

section \<open>\<open>filter_results\<close>\<close>

text \<open>
  \<^verbatim>\<open>filtered = driving_results[driving_results['driving_time_minutes'] <= max_time]\<close>
  selects the rows whose mask entry is true, in order; the second selection runs only
  when \<open>respect_state_lines\<close> is true.  \<open>origin_state\<close> is \<open>None\<close> when the geocoder found
  no state component, and then no row's state equals it.
\<close>

definition filter_results ::
  "travel_result list \<Rightarrow> real \<Rightarrow> bool \<Rightarrow> string option \<Rightarrow> travel_result list" where
  "filter_results driving_results max_time respect_state origin_st =
     (let filtered = filter (\<lambda>r. driving_time_minutes r \<le> max_time) driving_results
      in if respect_state
         then filter (\<lambda>r. Some (state r) = origin_st) filtered
         else filtered)"

subsection \<open>The same function over a store of data frames\<close>

text \<open>
  To speak about mutation, data frames live in a store and are passed by reference, as
  Python objects are.  A reference is an index into the store.  Indexing a frame with a
  boolean mask builds a new frame: it is allocated at the end of the store.
\<close>

type_synonym store = "travel_result list list"

definition getitem_mask :: "store \<Rightarrow> nat \<Rightarrow> (travel_result \<Rightarrow> bool) \<Rightarrow> store \<times> nat" where
  "getitem_mask st df keep = (st @ [filter keep (st ! df)], length st)"

definition filter_results_st ::
  "store \<Rightarrow> nat \<Rightarrow> real \<Rightarrow> bool \<Rightarrow> string option \<Rightarrow> store \<times> nat" where
  "filter_results_st st driving_results max_time respect_state origin_st =
     (let (st1, filtered) =
            getitem_mask st driving_results (\<lambda>r. driving_time_minutes r \<le> max_time)
      in if respect_state
         then getitem_mask st1 filtered (\<lambda>r. Some (state r) = origin_st)
         else (st1, filtered))"

section \<open>Binary64 arithmetic\<close>

text \<open>
  A Python float and a numpy \<open>float64\<close> scalar are IEEE 754 binary64 values: a finite
  number, a negative zero, an infinity or a nan.  \<open>Finite 0\<close> is the positive zero.
\<close>

datatype double = Finite real | NegZero | PosInf | NegInf | NaN

fun sign_bit :: "double \<Rightarrow> bool" where
  "sign_bit (Finite x) = (x < 0)"
| "sign_bit NegZero = True"
| "sign_bit PosInf = False"
| "sign_bit NegInf = True"
| "sign_bit NaN = False"

fun fval :: "double \<Rightarrow> real" where
  "fval (Finite x) = x"
| "fval NegZero = 0"
| "fval PosInf = 0"
| "fval NegInf = 0"
| "fval NaN = 0"

fun is_finite :: "double \<Rightarrow> bool" where
  "is_finite (Finite x) = True"
| "is_finite NegZero = True"
| "is_finite PosInf = False"
| "is_finite NegInf = False"
| "is_finite NaN = False"

definition is_zero :: "double \<Rightarrow> bool" where
  "is_zero d = (d = Finite 0 \<or> d = NegZero)"

definition signed_zero :: "bool \<Rightarrow> double" where
  "signed_zero neg = (if neg then NegZero else Finite 0)"

definition signed_inf :: "bool \<Rightarrow> double" where
  "signed_inf neg = (if neg then NegInf else PosInf)"

text \<open>
  The exponent of the binade of a magnitude \<open>a\<close>, kept within the exponents of binary64:
  the greatest \<open>e\<close> from \<open>-1022\<close> to \<open>1023\<close> with \<open>2 powi e \<le> a\<close>, and \<open>-1022\<close> for the
  subnormal magnitudes.  It is found by bisection.
\<close>

function bisect :: "real \<Rightarrow> int \<Rightarrow> int \<Rightarrow> int" where
  "bisect a lo hi =
     (if hi \<le> lo + 1 then lo
      else let mid = (lo + hi) div 2
           in if 2 powi mid \<le> a then bisect a mid hi else bisect a lo mid)"
  by pat_completeness auto
termination
  by (relation "measure (\<lambda>(a, lo, hi). nat (hi - lo))") auto

definition exponent :: "real \<Rightarrow> int" where
  "exponent x = bisect \<bar>x\<bar> (- 1022) 1024"

text \<open>Rounding to the nearest integer, a tie going to the even one.\<close>

definition rne :: "real \<Rightarrow> int" where
  "rne z =
     (let f = \<lfloor>z\<rfloor>; d = z - of_int f
      in if d < 1 / 2 then f
         else if 1 / 2 < d then f + 1
         else if even f then f else f + 1)"

text \<open>
  Rounding a real to the nearest multiple of the unit in the last place of its binade
  (53 significant bits), before the range of the exponent is looked at.
\<close>

definition rnd :: "real \<Rightarrow> real" where
  "rnd x = (let u = 2 powi (exponent x - 52) in of_int (rne (x / u)) * u)"

text \<open>
  The binary64 value of an exact result \<open>x\<close>, of which only the sign is used when it is
  zero: a result of magnitude \<open>2 ^ 1024\<close> or more after rounding overflows to an
  infinity, and one that rounds to zero keeps its sign.
\<close>

definition round_double :: "real \<Rightarrow> double" where
  "round_double x =
     (let y = rnd x
      in if 2 ^ 1024 \<le> \<bar>y\<bar> then signed_inf (x < 0)
         else if y = 0 then signed_zero (x < 0)
         else Finite y)"

text \<open>Division, multiplication and subtraction of binary64 values; none of them raises.\<close>

definition fdiv :: "double \<Rightarrow> double \<Rightarrow> double" where
  "fdiv a b =
     (let neg = (sign_bit a \<noteq> sign_bit b)
      in if a = NaN \<or> b = NaN then NaN
         else if \<not> is_finite a then (if \<not> is_finite b then NaN else signed_inf neg)
         else if \<not> is_finite b then signed_zero neg
         else if is_zero b then (if is_zero a then NaN else signed_inf neg)
         else if is_zero a then signed_zero neg
         else round_double (fval a / fval b))"

definition fmul :: "double \<Rightarrow> double \<Rightarrow> double" where
  "fmul a b =
     (let neg = (sign_bit a \<noteq> sign_bit b)
      in if a = NaN \<or> b = NaN then NaN
         else if \<not> is_finite a \<or> \<not> is_finite b
              then (if is_zero a \<or> is_zero b then NaN else signed_inf neg)
         else if is_zero a \<or> is_zero b then signed_zero neg
         else round_double (fval a * fval b))"

definition fsub :: "double \<Rightarrow> double \<Rightarrow> double" where
  "fsub a b =
     (if a = NaN \<or> b = NaN then NaN
      else if \<not> is_finite a then (if a = b then NaN else a)
      else if \<not> is_finite b then signed_inf (\<not> sign_bit b)
      else let z = fval a - fval b
           in if z = 0 then (if a = NegZero \<and> b = Finite 0 then NegZero else Finite 0)
              else round_double z)"

text \<open>The comparisons \<open>a < b\<close> and \<open>a \<le> b\<close>: a nan compares false, the zeros are equal.\<close>

fun flt :: "double \<Rightarrow> double \<Rightarrow> bool" where
  "flt NaN b = False"
| "flt a NaN = False"
| "flt PosInf b = False"
| "flt a NegInf = False"
| "flt NegInf b = True"
| "flt a PosInf = True"
| "flt a b = (fval a < fval b)"

definition fle :: "double \<Rightarrow> double \<Rightarrow> bool" where
  "fle a b = (a \<noteq> NaN \<and> b \<noteq> NaN \<and> \<not> flt b a)"

section \<open>\<open>get_color_for_time\<close>\<close>

text \<open>
  The arguments are floats of one of two kinds, a Python float or a numpy scalar, and
  \<open>/\<close> tells them apart: between two Python floats a zero divisor raises
  \<open>ZeroDivisionError\<close>; when one operand is a numpy scalar the division is that of
  binary64 and, in numpy's default error state, warns and gives an infinity or a nan
  instead.  The operations after the division treat both kinds alike.
\<close>

datatype number = PyFloat double | NpFloat double

fun fnum :: "number \<Rightarrow> double" where
  "fnum (PyFloat d) = d"
| "fnum (NpFloat d) = d"

fun truediv :: "number \<Rightarrow> number \<Rightarrow> error + double" where
  "truediv (PyFloat a) (PyFloat b) =
     (if is_zero b then Inl ZeroDivisionError else Inr (fdiv a b))"
| "truediv x y = Inr (fdiv (fnum x) (fnum y))"

text \<open>
  \<open>int(x)\<close> truncates towards zero; it raises \<open>ValueError\<close> on a nan and \<open>OverflowError\<close>
  on an infinity.
\<close>

definition py_trunc :: "real \<Rightarrow> int" where
  "py_trunc x = (if 0 \<le> x then \<lfloor>x\<rfloor> else \<lceil>x\<rceil>)"

fun py_int :: "double \<Rightarrow> error + int" where
  "py_int (Finite x) = Inr (py_trunc x)"
| "py_int NegZero = Inr 0"
| "py_int PosInf = Inl OverflowError"
| "py_int NegInf = Inl OverflowError"
| "py_int NaN = Inl ValueError"

text \<open>
  The three channels computed by \<open>get_color_for_time\<close>, in the order of the statements:
  the ratio, then the red channel, then the green one; the first raise ends the call.
\<close>

definition color_channels :: "number \<Rightarrow> number \<Rightarrow> error + (int \<times> int \<times> int)" where
  "color_channels t max_time =
     (case truediv t max_time of
        Inl e \<Rightarrow> Inl e
      | Inr ratio \<Rightarrow>
          (case py_int (fmul (Finite 255) ratio) of
             Inl e \<Rightarrow> Inl e
           | Inr r \<Rightarrow>
               (case py_int (fmul (Finite 255) (fsub (Finite 1) ratio)) of
                  Inl e \<Rightarrow> Inl e
                | Inr g \<Rightarrow> Inr (min 255 r, min 255 g, 0))))"

text \<open>The format specification \<open>02x\<close>: lower-case hexadecimal, zero-padded to width two.\<close>

definition hex_digit :: "nat \<Rightarrow> char" where
  "hex_digit d = ''0123456789abcdef'' ! d"

fun hex_nat :: "nat \<Rightarrow> string" where
  "hex_nat n = (if n < 16 then [hex_digit n] else hex_nat (n div 16) @ [hex_digit (n mod 16)])"

definition format_02x :: "int \<Rightarrow> string" where
  "format_02x i =
     (if i < 0 then CHR ''-'' # hex_nat (nat (- i))
      else let s = hex_nat (nat i) in if length s < 2 then CHR ''0'' # s else s)"

definition get_color_for_time :: "number \<Rightarrow> number \<Rightarrow> error + string" where
  "get_color_for_time t max_time =
     (case color_channels t max_time of
        Inl e \<Rightarrow> Inl e
      | Inr (r, g, b) \<Rightarrow> Inr (CHR ''#'' # format_02x r @ format_02x g @ format_02x b))"

section \<open>The batching loop of \<open>calculate_driving_times\<close>\<close>

definition batch_size :: nat where
  "batch_size = 25"

text \<open>\<open>range(i, n, batch_size)\<close>: the start index of every batch.\<close>

function batch_starts :: "nat \<Rightarrow> nat \<Rightarrow> nat list" where
  "batch_starts i n = (if i < n then i # batch_starts (i + batch_size) n else [])"
  by pat_completeness auto
termination
  by (relation "measure (\<lambda>(i, n). n - i)") (auto simp: batch_size_def)

text \<open>\<open>sample_zips.iloc[i:j]\<close>: the rows at positions \<open>i\<close> up to \<open>j\<close>, clipped at the end.\<close>

definition iloc_slice :: "'a list \<Rightarrow> nat \<Rightarrow> nat \<Rightarrow> 'a list" where
  "iloc_slice xs i j = take (j - i) (drop i xs)"

text \<open>The batches the loop visits, in order.\<close>

definition batches :: "'a list \<Rightarrow> 'a list list" where
  "batches sample_zips =
     map (\<lambda>i. iloc_slice sample_zips i (i + batch_size)) (batch_starts 0 (length sample_zips))"

section \<open>\<open>geocode_address\<close>\<close>

text \<open>
  The decoded reply of the geocoding endpoint: a status, and a list of candidates, each
  with a location and its address components.
\<close>

record address_component =
  types :: "string list"
  short_name :: string

record geocode_candidate =
  lat :: real
  lng :: real
  address_components :: "address_component list"

record geocode_response =
  status :: string
  results :: "geocode_candidate list"

text \<open>The loop over the address components, left at the first one that names a state.\<close>

fun find_state :: "address_component list \<Rightarrow> string option" where
  "find_state [] = None"
| "find_state (component # rest) =
     (if ''administrative_area_level_1'' \<in> set (types component)
      then Some (short_name component)
      else find_state rest)"

text \<open>
  \<open>http_get\<close> stands for the provider: it maps the address of the request to the decoded
  reply.  \<open>data['results'][0]\<close> raises \<open>IndexError\<close> on an empty list.
\<close>

definition geocode_address ::
  "(string \<Rightarrow> geocode_response) \<Rightarrow> string
     \<Rightarrow> error + ((real \<times> real) option \<times> string option)" where
  "geocode_address http_get address =
     (let data = http_get address
      in if status data \<noteq> ''OK'' then Inr (None, None)
         else case results data of
                [] \<Rightarrow> Inl IndexError
              | candidate # _ \<Rightarrow>
                  Inr (Some (lat candidate, lng candidate),
                       find_state (address_components candidate)))"

section \<open>\<open>calculate_driving_times\<close>\<close>

text \<open>
  The decoded reply of the distance-matrix endpoint.  The code tests the keys \<open>rows\<close>,
  \<open>elements\<close> and \<open>duration\<close> with \<open>in\<close>; \<open>duration\<close> holds the value of
  \<open>route['duration']['seconds']\<close> when the key is there.
\<close>

record matrix_element =
  duration :: "real option"

record matrix_row =
  elements :: "matrix_element list option"

record matrix_response =
  matrix_status :: string
  rows :: "matrix_row list option"

text \<open>
  The loop \<open>for j, route in enumerate(element['elements'])\<close>, started at position \<open>j\<close>
  with the list \<open>acc\<close> of results so far.  \<open>batch.iloc[j]\<close> raises \<open>IndexError\<close> beyond the
  batch.  The state of every result is the literal \<open>"VA"\<close>.
\<close>

fun process_elements ::
  "area_record list \<Rightarrow> nat \<Rightarrow> matrix_element list \<Rightarrow> travel_result list
     \<Rightarrow> error + travel_result list" where
  "process_elements batch j [] acc = Inr acc"
| "process_elements batch j (route # rest) acc =
     (case duration route of
        None \<Rightarrow> process_elements batch (Suc j) rest acc
      | Some secs \<Rightarrow>
          if j < length batch
          then process_elements batch (Suc j) rest
                 (acc @ [\<lparr>zip_code = ZCTA5 (batch ! j), state = ''VA'',
                          driving_time_minutes = secs / 60,
                          geometry = area_geometry (batch ! j)\<rparr>])
          else Inl IndexError)"

text \<open>The loop \<open>for element in data['rows']\<close>.\<close>

fun process_rows ::
  "area_record list \<Rightarrow> matrix_row list \<Rightarrow> travel_result list \<Rightarrow> error + travel_result list" where
  "process_rows batch [] acc = Inr acc"
| "process_rows batch (element # rest) acc =
     (case elements element of
        None \<Rightarrow> process_rows batch rest acc
      | Some routes \<Rightarrow>
          (case process_elements batch 0 routes acc of
             Inl e \<Rightarrow> Inl e
           | Inr acc' \<Rightarrow> process_rows batch rest acc'))"

text \<open>
  The loop over the batches.  Each pass sends a POST and then a GET and keeps the reply
  of the GET only; \<open>provider k\<close> is that reply in pass \<open>k\<close>.  A status other than \<open>OK\<close>
  skips the batch.
\<close>

fun process_batches ::
  "(nat \<Rightarrow> matrix_response) \<Rightarrow> nat \<Rightarrow> area_record list list \<Rightarrow> travel_result list
     \<Rightarrow> error + travel_result list" where
  "process_batches provider k [] acc = Inr acc"
| "process_batches provider k (batch # rest) acc =
     (let data = provider k
      in if matrix_status data \<noteq> ''OK'' then process_batches provider (Suc k) rest acc
         else case rows data of
                None \<Rightarrow> process_batches provider (Suc k) rest acc
              | Some rs \<Rightarrow>
                  (case process_rows batch rs acc of
                     Inl e \<Rightarrow> Inl e
                   | Inr acc' \<Rightarrow> process_batches provider (Suc k) rest acc'))"

text \<open>
  The calculator object.  The field \<open>self_x\<close> is the attribute \<open>self.x\<close>; an attribute
  set to \<open>None\<close> by \<open>__init__\<close> is an \<open>option\<close>.
\<close>

record calculator =
  self_api_key :: "string option"
  self_zip_gdf :: "area_record list option"
  self_results :: "travel_result list option"
  self_origin_address :: "string option"
  self_max_driving_time :: "int option"
  self_respect_state_lines :: "bool option"
  self_origin_state :: "string option"

text \<open>
  The value of the local variable \<open>results\<close> when the loop of \<open>calculate_driving_times\<close>
  ends.  \<open>draw gdf n\<close> stands for \<open>gdf.sample(n)\<close>, a random choice of \<open>n\<close> rows.
\<close>

definition driving_times_collected ::
  "(nat \<Rightarrow> matrix_response) \<Rightarrow> (area_record list \<Rightarrow> nat \<Rightarrow> area_record list)
     \<Rightarrow> calculator \<Rightarrow> real \<times> real \<Rightarrow> area_record list option
     \<Rightarrow> error + travel_result list" where
  "driving_times_collected provider draw self origin_coords sample_zips =
     (case (case sample_zips of
              Some zips \<Rightarrow> Inr zips
            | None \<Rightarrow>
                (case self_zip_gdf self of
                   None \<Rightarrow> Inl AttributeError
                 | Some gdf \<Rightarrow> Inr (draw gdf (min 100 (length gdf))))) of
        Inl e \<Rightarrow> Inl e
      | Inr zips \<Rightarrow> process_batches provider 0 (batches zips) [])"

text \<open>
  What \<open>calculate_driving_times\<close> returns.  The body ends with the loop and has no
  \<open>return\<close> statement, so a call that does not raise evaluates to \<open>None\<close>.
\<close>

definition calculate_driving_times ::
  "(nat \<Rightarrow> matrix_response) \<Rightarrow> (area_record list \<Rightarrow> nat \<Rightarrow> area_record list)
     \<Rightarrow> calculator \<Rightarrow> real \<times> real \<Rightarrow> area_record list option
     \<Rightarrow> error + travel_result list option" where
  "calculate_driving_times provider draw self origin_coords sample_zips =
     (case driving_times_collected provider draw self origin_coords sample_zips of
        Inl e \<Rightarrow> Inl e
      | Inr collected \<Rightarrow> Inr None)"

section \<open>The output files\<close>

text \<open>
  The map that \<open>create_map\<close> builds: where it is centred, its markers and its GeoJson
  overlays, each list in the order of the \<open>add_to\<close> calls.  An overlay records its
  geometry, its fill colour and the two values its tooltip shows.
\<close>

record marker =
  marker_location :: "real \<times> real"
  popup :: string
  icon_color :: string
  icon_name :: string

record overlay =
  overlay_geometry :: geometry
  fillColor :: string
  tooltip_zip :: string
  tooltip_time :: real

record folium_map =
  location :: "real \<times> real"
  zoom_start :: nat
  markers :: "marker list"
  overlays :: "overlay list"

text \<open>
  The file that \<open>to_csv(filename, index=False)\<close> writes: the header line with the column
  names, then one line per row of the frame with the cells of these columns.
\<close>

record csv_file =
  header :: "string list"
  csv_rows :: "(string \<times> string \<times> real) list"

datatype written_file = HtmlFile folium_map | CsvFile csv_file

text \<open>The working directory: the files by name.\<close>

type_synonym files = "string \<rightharpoonup> written_file"

section \<open>\<open>create_map\<close>\<close>

text \<open>
  The loop \<open>for idx, row in gdf.iterrows()\<close>; a colour that cannot be computed raises.
  The duration of the row reaches \<open>get_color_for_time\<close> as a Python float, and \<open>max_time\<close>
  as the numpy scalar that \<open>.max()\<close> returned.
\<close>

fun add_polygons :: "real \<Rightarrow> travel_result list \<Rightarrow> folium_map \<Rightarrow> error + folium_map" where
  "add_polygons max_time [] m = Inr m"
| "add_polygons max_time (row # rest) m =
     (case get_color_for_time (PyFloat (Finite (driving_time_minutes row)))
             (NpFloat (Finite max_time)) of
        Inl e \<Rightarrow> Inl e
      | Inr color \<Rightarrow>
          add_polygons max_time rest
            (m\<lparr>overlays := overlays m @
                  [\<lparr>overlay_geometry = geometry row, fillColor = color,
                    tooltip_zip = zip_code row,
                    tooltip_time = driving_time_minutes row\<rparr>]\<rparr>))"

text \<open>
  \<open>gdf['driving_time_minutes'].max()\<close> is computed only for a frame with a first row.
  The file is saved after the loop, so a raise in the loop leaves the directory as it was.
\<close>

definition create_map ::
  "travel_result list \<Rightarrow> real \<times> real \<Rightarrow> files \<Rightarrow> error + (string \<times> files)" where
  "create_map filtered_results origin_coords fs =
     (let m = \<lparr>location = origin_coords, zoom_start = 10, markers = [], overlays = []\<rparr>;
          m = m\<lparr>markers := markers m @
                 [\<lparr>marker_location = origin_coords, popup = ''Origin'',
                   icon_color = ''red'', icon_name = ''home''\<rparr>]\<rparr>
      in case (case filtered_results of
                 [] \<Rightarrow> Inr m
               | row # rest \<Rightarrow>
                   add_polygons
                     (fold max (map driving_time_minutes rest) (driving_time_minutes row))
                     filtered_results m) of
           Inl e \<Rightarrow> Inl e
         | Inr m' \<Rightarrow>
             Inr (''driving_time_radius.html'',
                  fs(''driving_time_radius.html'' \<mapsto> HtmlFile m')))"

section \<open>\<open>export_results\<close>\<close>

text \<open>A row of the copy without the \<open>geometry\<close> column.\<close>

definition drop_geometry :: "travel_result \<Rightarrow> string \<times> string \<times> real" where
  "drop_geometry r = (zip_code r, state r, driving_time_minutes r)"

definition export_results ::
  "travel_result list \<Rightarrow> string \<Rightarrow> files \<Rightarrow> string option \<times> files" where
  "export_results filtered_results filename fs =
     (if length filtered_results > 0
      then (Some filename,
            fs(filename \<mapsto>
                 CsvFile \<lparr>header = [''zip_code'', ''state'', ''driving_time_minutes''],
                          csv_rows = map drop_geometry filtered_results\<rparr>))
      else (None, fs))"

section \<open>\<open>run_calculation\<close>\<close>

text \<open>Decimal text of a number, as an f-string prints an int.\<close>

fun dec_nat :: "nat \<Rightarrow> string" where
  "dec_nat n =
     (if n < 10 then [''0123456789'' ! n] else dec_nat (n div 10) @ [''0123456789'' ! (n mod 10)])"

definition str_int :: "int \<Rightarrow> string" where
  "str_int i = (if i < 0 then CHR ''-'' # dec_nat (nat (- i)) else dec_nat (nat i))"

text \<open>
  A run returns its message or raises, and leaves the calculator object and the working
  directory behind.  Subscripting \<open>None\<close> in \<open>filter_results\<close> raises \<open>TypeError\<close>.
\<close>

definition run_calculation ::
  "(string \<Rightarrow> geocode_response) \<Rightarrow> (nat \<Rightarrow> matrix_response)
     \<Rightarrow> (area_record list \<Rightarrow> nat \<Rightarrow> area_record list)
     \<Rightarrow> calculator \<Rightarrow> string \<Rightarrow> int \<Rightarrow> bool \<Rightarrow> files
     \<Rightarrow> (error + string) \<times> calculator \<times> files" where
  "run_calculation http_get provider draw self address max_time respect_state fs =
     (let self = self\<lparr>self_origin_address := Some address,
                      self_max_driving_time := Some max_time,
                      self_respect_state_lines := Some respect_state\<rparr>
      in case geocode_address http_get address of
           Inl e \<Rightarrow> (Inl e, self, fs)
         | Inr (origin_coords, origin_st) \<Rightarrow>
             (let self = self\<lparr>self_origin_state := origin_st\<rparr>
              in case origin_coords of
                   None \<Rightarrow> (Inr ''Geocoding failed. Please check the address.'', self, fs)
                 | Some coords \<Rightarrow>
                     (case calculate_driving_times provider draw self coords None of
                        Inl e \<Rightarrow> (Inl e, self, fs)
                      | Inr None \<Rightarrow> (Inl TypeError, self, fs)
                      | Inr (Some driving_results) \<Rightarrow>
                          (let filtered_results =
                                 filter_results driving_results (real_of_int max_time)
                                   respect_state (self_origin_state self);
                               self = self\<lparr>self_results := Some filtered_results\<rparr>
                           in case create_map filtered_results coords fs of
                                Inl e \<Rightarrow> (Inl e, self, fs)
                              | Inr (map_file, fs1) \<Rightarrow>
                                  (let (csv_file, fs2) =
                                         export_results filtered_results
                                           ''zip_codes_in_range.csv'' fs1
                                   in (Inr (''Analysis complete. Found ''
                                              @ dec_nat (length filtered_results)
                                              @ '' zip codes within '' @ str_int max_time
                                              @ '' minutes.''),
                                       self, fs2))))))"

section \<open>Properties of \<open>filter_results\<close>\<close>

lemma filter_results_eq:
  "filter_results rs m b os =
     filter (\<lambda>r. driving_time_minutes r \<le> m \<and> (\<not> b \<or> Some (state r) = os)) rs"
  by (cases b) (simp_all add: filter_results_def Let_def conj_commute)

text \<open>
  Claim C1.  For every frame of travel results, every maximum time, every flag and every
  origin state, \<open>filter_results\<close> returns exactly the rows with
  \<open>driving_time_minutes \<le> max_time\<close> that, when the flag is set, also have the origin's
  state: as a set, and as a list in the order of the input.  On the two rows 22201 (VA,
  15 minutes) and 20001 (DC, 50 minutes) with maximum 30, the flag set and origin state
  VA, the result is the 22201 row alone.
\<close>

theorem filter_results_exact:
  "set (filter_results rs m b os) =
     {r \<in> set rs. driving_time_minutes r \<le> m \<and> (\<not> b \<or> Some (state r) = os)}
   \<and> filter_results rs m b os =
     filter (\<lambda>r. driving_time_minutes r \<le> m \<and> (\<not> b \<or> Some (state r) = os)) rs
   \<and> filter_results
       [\<lparr>zip_code = ''22201'', state = ''VA'', driving_time_minutes = 15, geometry = g1\<rparr>,
        \<lparr>zip_code = ''20001'', state = ''DC'', driving_time_minutes = 50, geometry = g2\<rparr>]
       30 True (Some ''VA'')
     = [\<lparr>zip_code = ''22201'', state = ''VA'', driving_time_minutes = 15, geometry = g1\<rparr>]"
proof -
  have "set (filter_results rs m b os) =
     {r \<in> set rs. driving_time_minutes r \<le> m \<and> (\<not> b \<or> Some (state r) = os)}"
    unfolding filter_results_eq by auto
  moreover have "filter_results
       [\<lparr>zip_code = ''22201'', state = ''VA'', driving_time_minutes = 15, geometry = g1\<rparr>,
        \<lparr>zip_code = ''20001'', state = ''DC'', driving_time_minutes = 50, geometry = g2\<rparr>]
       30 True (Some ''VA'')
     = [\<lparr>zip_code = ''22201'', state = ''VA'', driving_time_minutes = 15, geometry = g1\<rparr>]"
    by (simp add: filter_results_def)
  ultimately show ?thesis using filter_results_eq by blast
qed

text \<open>The theorem at a frame where the state test, not the time test, removes a row.\<close>

theorem filter_results_exact_witness:
  "set (filter_results
       [\<lparr>zip_code = ''22201'', state = ''VA'', driving_time_minutes = 15, geometry = []\<rparr>,
        \<lparr>zip_code = ''20001'', state = ''DC'', driving_time_minutes = 20, geometry = []\<rparr>]
       30 True (Some ''VA''))
     = {\<lparr>zip_code = ''22201'', state = ''VA'', driving_time_minutes = 15, geometry = []\<rparr>}"
  using filter_results_exact [of
       "[\<lparr>zip_code = ''22201'', state = ''VA'', driving_time_minutes = 15, geometry = []\<rparr>,
        \<lparr>zip_code = ''20001'', state = ''DC'', driving_time_minutes = 20, geometry = []\<rparr>]"
       30 True "Some ''VA''"]
  by auto

text \<open>
  Claim C9.  \<open>filter_results\<close> does not mutate its input.  In the store model, after the
  call every frame that existed before, the input among them, is what it was; the result
  is a frame allocated by the call, it holds the rows \<open>filter_results\<close> computes, and
  each of them is a row of the input.
\<close>

theorem filter_results_st_frame:
  assumes "filter_results_st st driving_results m b os = (st', out)"
  shows "take (length st) st' = st
         \<and> (\<forall>a < length st. st' ! a = st ! a)
         \<and> length st \<le> out \<and> out < length st'
         \<and> st' ! out = filter_results (st ! driving_results) m b os
         \<and> set (st' ! out) \<subseteq> set (st ! driving_results)"
proof -
  obtain st1 f1 where
    g1: "getitem_mask st driving_results (\<lambda>r. driving_time_minutes r \<le> m) = (st1, f1)"
    by (simp add: getitem_mask_def)
  have st1: "st1 = st @ [filter (\<lambda>r. driving_time_minutes r \<le> m) (st ! driving_results)]"
    and f1: "f1 = length st"
    using g1 by (auto simp: getitem_mask_def)
  show ?thesis
  proof (cases b)
    case False
    then have "st' = st1" "out = f1"
      using assms g1 by (simp_all add: filter_results_st_def)
    then show ?thesis
      using False st1 f1 by (auto simp: filter_results_def nth_append)
  next
    case True
    then have "(st', out) = getitem_mask st1 f1 (\<lambda>r. Some (state r) = os)"
      using assms g1 by (simp add: filter_results_st_def)
    then have "st' = st1 @ [filter (\<lambda>r. Some (state r) = os) (st1 ! f1)]" "out = length st1"
      by (simp_all add: getitem_mask_def)
    then show ?thesis
      using True st1 f1 by (auto simp: filter_results_def nth_append)
  qed
qed

text \<open>The theorem at a store with one frame of two rows: the frame stays, two are added.\<close>

theorem filter_results_st_frame_witness:
  "filter_results_st
         [[\<lparr>zip_code = ''22201'', state = ''VA'', driving_time_minutes = 15, geometry = []\<rparr>,
           \<lparr>zip_code = ''20001'', state = ''DC'', driving_time_minutes = 50, geometry = []\<rparr>]]
         0 30 True (Some ''VA'')
     = ([[\<lparr>zip_code = ''22201'', state = ''VA'', driving_time_minutes = 15, geometry = []\<rparr>,
           \<lparr>zip_code = ''20001'', state = ''DC'', driving_time_minutes = 50, geometry = []\<rparr>],
         [\<lparr>zip_code = ''22201'', state = ''VA'', driving_time_minutes = 15, geometry = []\<rparr>],
         [\<lparr>zip_code = ''22201'', state = ''VA'', driving_time_minutes = 15, geometry = []\<rparr>]], 2)
   \<and> [[\<lparr>zip_code = ''22201'', state = ''VA'', driving_time_minutes = 15, geometry = []\<rparr>,
           \<lparr>zip_code = ''20001'', state = ''DC'', driving_time_minutes = 50, geometry = []\<rparr>],
         [\<lparr>zip_code = ''22201'', state = ''VA'', driving_time_minutes = 15, geometry = []\<rparr>],
         [\<lparr>zip_code = ''22201'', state = ''VA'', driving_time_minutes = 15, geometry = []\<rparr>]] ! 0
      = [\<lparr>zip_code = ''22201'', state = ''VA'', driving_time_minutes = 15, geometry = []\<rparr>,
           \<lparr>zip_code = ''20001'', state = ''DC'', driving_time_minutes = 50, geometry = []\<rparr>]"
proof -
  have run: "filter_results_st
         [[\<lparr>zip_code = ''22201'', state = ''VA'', driving_time_minutes = 15, geometry = []\<rparr>,
           \<lparr>zip_code = ''20001'', state = ''DC'', driving_time_minutes = 50, geometry = []\<rparr>]]
         0 30 True (Some ''VA'')
     = ([[\<lparr>zip_code = ''22201'', state = ''VA'', driving_time_minutes = 15, geometry = []\<rparr>,
           \<lparr>zip_code = ''20001'', state = ''DC'', driving_time_minutes = 50, geometry = []\<rparr>],
         [\<lparr>zip_code = ''22201'', state = ''VA'', driving_time_minutes = 15, geometry = []\<rparr>],
         [\<lparr>zip_code = ''22201'', state = ''VA'', driving_time_minutes = 15, geometry = []\<rparr>]], 2)"
    by (simp add: filter_results_st_def getitem_mask_def)
  show ?thesis
    using run filter_results_st_frame [OF run] by simp
qed

section \<open>Properties of the rounding\<close>

declare bisect.simps [simp del]

lemma bisect_range: "lo < hi \<Longrightarrow> lo \<le> bisect a lo hi \<and> bisect a lo hi < hi"
proof (induction a lo hi rule: bisect.induct)
  case (1 a lo hi)
  show ?case
  proof (cases "hi \<le> lo + 1")
    case True
    then have "bisect a lo hi = lo" by (subst bisect.simps) simp
    then show ?thesis using "1.prems" by simp
  next
    case False
    define mid where "mid = (lo + hi) div 2"
    have mid: "lo < mid" "mid < hi" using False by (simp_all add: mid_def)
    show ?thesis
    proof (cases "2 powi mid \<le> a")
      case True
      have "bisect a lo hi = bisect a mid hi"
        using False True by (subst bisect.simps) (simp add: mid_def Let_def)
      then show ?thesis
        using "1.IH"(1) [OF False mid_def True mid(2)] mid by simp
    next
      case no: False
      have "bisect a lo hi = bisect a lo mid"
        using False no by (subst bisect.simps) (simp add: mid_def Let_def)
      then show ?thesis
        using "1.IH"(2) [OF False mid_def no mid(1)] mid by simp
    qed
  qed
qed

lemma bisect_binade:
  "lo < hi \<Longrightarrow>
     (bisect a lo hi = lo \<or> 2 powi (bisect a lo hi) \<le> a)
     \<and> (bisect a lo hi + 1 = hi \<or> a < 2 powi (bisect a lo hi + 1))"
proof (induction a lo hi rule: bisect.induct)
  case (1 a lo hi)
  show ?case
  proof (cases "hi \<le> lo + 1")
    case True
    then have "bisect a lo hi = lo" by (subst bisect.simps) simp
    then show ?thesis using True "1.prems" by simp
  next
    case False
    define mid where "mid = (lo + hi) div 2"
    have mid: "lo < mid" "mid < hi" using False by (simp_all add: mid_def)
    show ?thesis
    proof (cases "2 powi mid \<le> a")
      case True
      have eq: "bisect a lo hi = bisect a mid hi"
        using False True by (subst bisect.simps) (simp add: mid_def Let_def)
      show ?thesis
        using "1.IH"(1) [OF False mid_def True mid(2)] True unfolding eq by auto
    next
      case no: False
      have eq: "bisect a lo hi = bisect a lo mid"
        using False no by (subst bisect.simps) (simp add: mid_def Let_def)
      show ?thesis
        using "1.IH"(2) [OF False mid_def no mid(1)] no unfolding eq by auto
    qed
  qed
qed

lemma exponent_range: "- 1022 \<le> exponent x" "exponent x \<le> 1023"
  using bisect_range [of "- 1022" 1024 "\<bar>x\<bar>"] by (simp_all add: exponent_def)

lemma exponent_lower: "- 1022 < exponent x \<Longrightarrow> 2 powi (exponent x) \<le> \<bar>x\<bar>"
  using bisect_binade [of "- 1022" 1024 "\<bar>x\<bar>"] by (auto simp: exponent_def)

lemma exponent_upper: "exponent x < 1023 \<Longrightarrow> \<bar>x\<bar> < 2 powi (exponent x + 1)"
  using bisect_binade [of "- 1022" 1024 "\<bar>x\<bar>"] by (auto simp: exponent_def)

lemma pow2_mono: "a \<le> b \<Longrightarrow> (2::real) powi a \<le> 2 powi b"
  by (rule power_int_increasing) simp_all

lemma exponent_mono:
  assumes "\<bar>x\<bar> \<le> \<bar>y\<bar>"
  shows "exponent x \<le> exponent y"
proof (rule ccontr)
  assume "\<not> exponent x \<le> exponent y"
  then have less: "exponent y + 1 \<le> exponent x" by simp
  then have "- 1022 < exponent x" "exponent y < 1023"
    using exponent_range [of y] exponent_range [of x] by linarith+
  then have "2 powi (exponent x) \<le> \<bar>x\<bar>" "\<bar>y\<bar> < 2 powi (exponent y + 1)"
    by (simp_all add: exponent_lower exponent_upper)
  moreover have "(2::real) powi (exponent y + 1) \<le> 2 powi (exponent x)"
    using less by (rule pow2_mono)
  ultimately show False using assms by linarith
qed

lemma exponent_eqI:
  assumes "- 1022 \<le> e" "e \<le> 1023"
      and "e = - 1022 \<or> 2 powi e \<le> \<bar>x\<bar>"
      and "e = 1023 \<or> \<bar>x\<bar> < 2 powi (e + 1)"
  shows "exponent x = e"
proof (rule ccontr)
  assume ne: "exponent x \<noteq> e"
  show False
  proof (cases "exponent x < e")
    case True
    then have "exponent x < 1023" "- 1022 < e"
      using assms(2) exponent_range(1) [of x] by linarith+
    then have "\<bar>x\<bar> < 2 powi (exponent x + 1)" "2 powi e \<le> \<bar>x\<bar>"
      using assms(3) by (simp_all add: exponent_upper)
    moreover have "(2::real) powi (exponent x + 1) \<le> 2 powi e"
      using True by (intro pow2_mono) simp
    ultimately show False by linarith
  next
    case False
    then have gt: "e < exponent x" using ne by simp
    then have "- 1022 < exponent x" "e < 1023"
      using assms(1) exponent_range(2) [of x] by linarith+
    then have "2 powi (exponent x) \<le> \<bar>x\<bar>" "\<bar>x\<bar> < 2 powi (e + 1)"
      using assms(4) by (simp_all add: exponent_lower)
    moreover have "(2::real) powi (e + 1) \<le> 2 powi (exponent x)"
      using gt by (intro pow2_mono) simp
    ultimately show False by linarith
  qed
qed

lemma exponent_minus: "exponent (- x) = exponent x"
  by (simp add: exponent_def)

lemma rne_floor: "\<lfloor>z\<rfloor> \<le> rne z" "rne z \<le> \<lfloor>z\<rfloor> + 1"
  by (simp_all add: rne_def Let_def)

lemma rne_of_int: "rne (of_int n) = n"
  by (simp add: rne_def)

lemma rne_mono:
  assumes "z \<le> w"
  shows "rne z \<le> rne w"
proof (cases "\<lfloor>z\<rfloor> < \<lfloor>w\<rfloor>")
  case True
  then show ?thesis using rne_floor(2) [of z] rne_floor(1) [of w] by linarith
next
  case False
  then have eq: "\<lfloor>z\<rfloor> = \<lfloor>w\<rfloor>"
    using floor_mono [OF assms] by linarith
  have "z - of_int \<lfloor>w\<rfloor> \<le> w - of_int \<lfloor>w\<rfloor>" using assms by simp
  then show ?thesis
    unfolding rne_def Let_def eq by (auto split: if_splits)
qed

lemma rne_ge_int: "of_int n \<le> z \<Longrightarrow> n \<le> rne z"
  using rne_mono [of "of_int n" z] by (simp add: rne_of_int)

lemma rne_le_int: "z \<le> of_int n \<Longrightarrow> rne z \<le> n"
  using rne_mono [of z "of_int n"] by (simp add: rne_of_int)

lemma rne_minus: "rne (- z) = - rne z"
proof (cases "z \<in> \<int>")
  case True
  then obtain n where "z = of_int n" by (auto elim: Ints_cases)
  then have "- z = of_int (- n)" by simp
  then show ?thesis unfolding \<open>z = of_int n\<close> by (simp only: rne_of_int)
next
  case False
  then have "z \<noteq> of_int \<lfloor>z\<rfloor>"
    by (metis Ints_of_int)
  then have fl: "\<lfloor>- z\<rfloor> = - \<lfloor>z\<rfloor> - 1"
    by (simp add: floor_minus ceiling_altdef)
  have frac: "- z - of_int (- \<lfloor>z\<rfloor> - 1) = 1 - (z - of_int \<lfloor>z\<rfloor>)" by simp
  have par: "even (- \<lfloor>z\<rfloor> - 1) \<longleftrightarrow> odd \<lfloor>z\<rfloor>" by simp
  show ?thesis
    unfolding rne_def Let_def fl frac par by (auto split: if_splits)
qed

text \<open>The exponent is that of the binade, \<open>\<lfloor>log 2 \<bar>x\<bar>\<rfloor>\<close>, kept within \<open>-1022\<close> and \<open>1023\<close>.\<close>

lemma exponent_log:
  assumes "x \<noteq> 0"
  shows "exponent x = max (- 1022) (min 1023 \<lfloor>log 2 \<bar>x\<bar>\<rfloor>)"
proof -
  define k where "k = \<lfloor>log 2 \<bar>x\<bar>\<rfloor>"
  have pw: "(2::real) powr (of_int i) = 2 powi i" for i
    by (simp add: powr_real_of_int power_int_def power_one_over inverse_eq_divide)
  have "2 powr (of_int k) \<le> \<bar>x\<bar> \<and> \<bar>x\<bar> < 2 powr (of_int (k + 1))"
    using floor_log_eq_powr_iff [of "\<bar>x\<bar>" 2 k] assms by (simp add: k_def)
  then have k: "2 powi k \<le> \<bar>x\<bar>" "\<bar>x\<bar> < 2 powi (k + 1)"
    by (simp_all only: pw)
  define e where "e = max (- 1022) (min 1023 k)"
  have "exponent x = e"
  proof (rule exponent_eqI)
    show "- 1022 \<le> e" "e \<le> 1023" by (simp_all add: e_def)
    show "e = - 1022 \<or> 2 powi e \<le> \<bar>x\<bar>"
    proof (cases "e = - 1022")
      case False
      then have "e \<le> k" by (simp add: e_def split: if_splits)
      then have "(2::real) powi e \<le> 2 powi k" by (rule pow2_mono)
      then show ?thesis using k(1) by linarith
    qed simp
    show "e = 1023 \<or> \<bar>x\<bar> < 2 powi (e + 1)"
    proof (cases "e = 1023")
      case False
      then have "k + 1 \<le> e + 1" by (simp add: e_def split: if_splits)
      then have "(2::real) powi (k + 1) \<le> 2 powi (e + 1)" by (rule pow2_mono)
      then show ?thesis using k(2) by linarith
    qed simp
  qed
  then show ?thesis by (simp add: e_def k_def)
qed

lemma ulp_pos: "0 < (2::real) powi k"
  by simp

lemma rnd_eq:
  "rnd x = of_int (rne (x / 2 powi (exponent x - 52))) * 2 powi (exponent x - 52)"
  by (simp add: rnd_def Let_def)

lemma rnd_minus: "rnd (- x) = - rnd x"
  by (simp add: rnd_eq exponent_minus rne_minus)

lemma rnd_zero: "rnd 0 = 0"
  using rne_of_int [of 0] by (simp add: rnd_eq)

lemma rnd_nonneg:
  assumes "0 \<le> x"
  shows "0 \<le> rnd x"
proof -
  have "0 \<le> x / 2 powi (exponent x - 52)" using assms by simp
  then have "0 \<le> rne (x / 2 powi (exponent x - 52))"
    using rne_ge_int [of 0] by simp
  then show ?thesis by (simp add: rnd_eq)
qed

lemma rnd_exact:
  assumes "x = of_int n * 2 powi (exponent x - 52)"
  shows "rnd x = x"
proof -
  have "x / 2 powi (exponent x - 52) = of_int n"
    using assms by (metis nonzero_mult_div_cancel_right power_int_eq_0_iff zero_neq_numeral)
  then have "rne (x / 2 powi (exponent x - 52)) = n"
    by (simp only: rne_of_int)
  then show ?thesis using assms by (simp add: rnd_eq)
qed

lemma rnd_ge_binade:
  assumes "- 1022 < exponent y" and "0 \<le> y"
  shows "2 powi (exponent y) \<le> rnd y"
proof -
  let ?u = "(2::real) powi (exponent y - 52)"
  have split: "(2::real) powi (exponent y) = of_int (2 ^ 52) * ?u"
    using power_int_add [of "2::real" 52 "exponent y - 52"] by simp
  have "2 powi (exponent y) \<le> y"
    using exponent_lower [OF assms(1)] assms(2) by simp
  then have "of_int (2 ^ 52) * ?u \<le> y" by (simp only: split)
  then have "of_int (2 ^ 52) \<le> y / ?u"
    by (simp add: pos_le_divide_eq)
  then have "2 ^ 52 \<le> rne (y / ?u)" by (rule rne_ge_int)
  then have "of_int (2 ^ 52) * ?u \<le> of_int (rne (y / ?u)) * ?u"
    by (intro mult_right_mono) simp_all
  then show ?thesis by (simp only: split rnd_eq)
qed

lemma rnd_le_binade:
  assumes "exponent x < 1023" and "0 \<le> x"
  shows "rnd x \<le> 2 powi (exponent x + 1)"
proof -
  let ?u = "(2::real) powi (exponent x - 52)"
  have split: "(2::real) powi (exponent x + 1) = of_int (2 ^ 53) * ?u"
    using power_int_add [of "2::real" 53 "exponent x - 52"] by (simp add: add.commute)
  have "x < 2 powi (exponent x + 1)"
    using exponent_upper [OF assms(1)] assms(2) by simp
  then have "x \<le> of_int (2 ^ 53) * ?u" by (simp only: split)
  then have "x / ?u \<le> of_int (2 ^ 53)"
    by (simp add: pos_divide_le_eq)
  then have "rne (x / ?u) \<le> 2 ^ 53" by (rule rne_le_int)
  then have "of_int (rne (x / ?u)) * ?u \<le> of_int (2 ^ 53) * ?u"
    by (intro mult_right_mono) simp_all
  then show ?thesis by (simp only: split rnd_eq)
qed

lemma rnd_mono_nonneg:
  assumes "0 \<le> x" and "x \<le> y"
  shows "rnd x \<le> rnd y"
proof -
  have le: "exponent x \<le> exponent y"
    using assms by (intro exponent_mono) simp
  show ?thesis
  proof (cases "exponent x = exponent y")
    case True
    let ?u = "(2::real) powi (exponent y - 52)"
    have "x / ?u \<le> y / ?u" using assms(2) by (simp add: divide_right_mono)
    then have "rne (x / ?u) \<le> rne (y / ?u)" by (rule rne_mono)
    then have "of_int (rne (x / ?u)) * ?u \<le> of_int (rne (y / ?u)) * ?u"
      by (intro mult_right_mono) simp_all
    then show ?thesis by (simp add: rnd_eq True)
  next
    case False
    then have less: "exponent x + 1 \<le> exponent y" using le by simp
    then have "exponent x < 1023" "- 1022 < exponent y"
      using exponent_range(2) [of y] exponent_range(1) [of x] by linarith+
    then have "rnd x \<le> 2 powi (exponent x + 1)" "2 powi (exponent y) \<le> rnd y"
      using assms by (simp_all add: rnd_le_binade rnd_ge_binade)
    moreover have "(2::real) powi (exponent x + 1) \<le> 2 powi (exponent y)"
      using less by (rule pow2_mono)
    ultimately show ?thesis by linarith
  qed
qed

lemma rnd_mono:
  assumes "x \<le> y"
  shows "rnd x \<le> rnd y"
proof (cases "0 \<le> x")
  case True
  then show ?thesis using assms by (rule rnd_mono_nonneg)
next
  case False
  show ?thesis
  proof (cases "y \<le> 0")
    case True
    then have "rnd (- y) \<le> rnd (- x)"
      using assms by (intro rnd_mono_nonneg) simp_all
    then show ?thesis by (simp add: rnd_minus)
  next
    case pos: False
    have "0 \<le> rnd (- x)" "0 \<le> rnd y"
      using False pos by (simp_all add: rnd_nonneg)
    then show ?thesis by (simp add: rnd_minus)
  qed
qed

lemma exponent_1: "exponent 1 = 0"
  by (rule exponent_eqI) simp_all

lemma exponent_255: "exponent 255 = 7"
  by (rule exponent_eqI) simp_all

lemma rnd_1: "rnd 1 = 1"
  by (rule rnd_exact [of _ "2 ^ 52"]) (simp add: exponent_1)

lemma rnd_255: "rnd 255 = 255"
  by (rule rnd_exact [of _ "255 * 2 ^ 45"]) (simp add: exponent_255)

text \<open>The rounded value is within half a unit in the last place of the exact one.\<close>

lemma rne_nearest: "\<bar>of_int (rne z) - z\<bar> \<le> 1 / 2"
proof -
  have "of_int \<lfloor>z\<rfloor> \<le> z" "z < of_int \<lfloor>z\<rfloor> + 1" by linarith+
  then show ?thesis by (auto simp: rne_def Let_def)
qed

lemma rnd_nearest: "\<bar>rnd x - x\<bar> \<le> 2 powi (exponent x - 52) / 2"
proof -
  let ?u = "(2::real) powi (exponent x - 52)"
  have "rnd x - x = (of_int (rne (x / ?u)) - x / ?u) * ?u"
    by (simp add: rnd_eq field_simps)
  then have "\<bar>rnd x - x\<bar> = \<bar>of_int (rne (x / ?u)) - x / ?u\<bar> * ?u"
    by (simp add: abs_mult)
  also have "\<dots> \<le> 1 / 2 * ?u"
    by (intro mult_right_mono rne_nearest) simp
  finally show ?thesis by simp
qed

section \<open>Properties of the binary64 operations\<close>

lemma round_double_finite: "is_finite (round_double x) \<longleftrightarrow> \<bar>rnd x\<bar> < 2 ^ 1024"
  by (simp add: round_double_def Let_def signed_inf_def signed_zero_def)

lemma round_double_val: "is_finite (round_double x) \<Longrightarrow> fval (round_double x) = rnd x"
  by (auto simp: round_double_def Let_def signed_inf_def signed_zero_def split: if_splits)

lemma py_trunc_mono: "x \<le> y \<Longrightarrow> py_trunc x \<le> py_trunc y"
proof -
  assume xy: "x \<le> y"
  show ?thesis
  proof (cases "0 \<le> x")
    case True
    then show ?thesis using xy by (simp add: py_trunc_def floor_mono)
  next
    case False
    show ?thesis
    proof (cases "0 \<le> y")
      case True
      have "py_trunc x = \<lceil>x\<rceil>" "py_trunc y = \<lfloor>y\<rfloor>"
        using False True by (simp_all add: py_trunc_def)
      moreover have "\<lceil>x\<rceil> \<le> 0" using False by simp
      moreover have "0 \<le> \<lfloor>y\<rfloor>" using True by simp
      ultimately show ?thesis by linarith
    next
      case y: False
      then show ?thesis using False xy by (simp add: py_trunc_def ceiling_mono)
    qed
  qed
qed

lemma py_int_Inr: "py_int a = Inr i \<longleftrightarrow> is_finite a \<and> i = py_trunc (fval a)"
  by (cases a) (auto simp: py_trunc_def)

lemma py_int_finite: "is_finite a \<Longrightarrow> py_int a = Inr (py_trunc (fval a))"
  by (simp add: py_int_Inr)

lemma py_int_Inl:
  "py_int a = Inl e \<longleftrightarrow>
     (a = NaN \<and> e = ValueError) \<or> ((a = PosInf \<or> a = NegInf) \<and> e = OverflowError)"
  by (cases a) auto

lemma fmul_255_finite:
  "is_finite (fmul (Finite 255) a)
     \<longleftrightarrow> is_finite a \<and> \<bar>rnd (255 * fval a)\<bar> < 2 ^ 1024"
  by (cases a)
     (simp_all add: fmul_def is_zero_def signed_zero_def signed_inf_def
                    round_double_finite rnd_zero)

lemma fmul_255_val:
  "is_finite (fmul (Finite 255) a) \<Longrightarrow> fval (fmul (Finite 255) a) = rnd (255 * fval a)"
  by (cases a)
     (auto simp: fmul_def is_zero_def signed_zero_def signed_inf_def
                 round_double_val rnd_zero split: if_splits)

lemma fsub_1_finite:
  "is_finite (fsub (Finite 1) a)
     \<longleftrightarrow> is_finite a \<and> \<bar>rnd (1 - fval a)\<bar> < 2 ^ 1024"
  by (cases a)
     (simp_all add: fsub_def Let_def signed_inf_def round_double_finite rnd_zero rnd_1)

lemma fsub_1_val:
  "is_finite (fsub (Finite 1) a) \<Longrightarrow> fval (fsub (Finite 1) a) = rnd (1 - fval a)"
  by (cases a)
     (auto simp: fsub_def Let_def signed_inf_def round_double_val rnd_zero rnd_1
           split: if_splits)

lemma positive_cases:
  "flt (Finite 0) m \<Longrightarrow> (\<exists>v. m = Finite v \<and> 0 < v) \<or> m = PosInf"
  by (cases m) simp_all

lemma fdiv_positive_finite:
  assumes "flt (Finite 0) m"
  shows "is_finite (fdiv d m)
           \<longleftrightarrow> is_finite d
               \<and> (m = PosInf \<or> \<bar>rnd (fval d / fval m)\<bar> < 2 ^ 1024)"
  using positive_cases [OF assms]
  by (cases d)
     (auto simp: fdiv_def Let_def is_zero_def signed_zero_def signed_inf_def
                 round_double_finite rnd_zero)

lemma fdiv_positive_val:
  assumes "flt (Finite 0) m" and "is_finite (fdiv d m)"
  shows "fval (fdiv d m) = (if m = PosInf then 0 else rnd (fval d / fval m))"
  using positive_cases [OF assms(1)] assms(2)
  by (cases d)
     (auto simp: fdiv_def Let_def is_zero_def signed_zero_def signed_inf_def
                 round_double_val rnd_zero split: if_splits)

lemma truediv_positive:
  "flt (Finite 0) (fnum max_time)
     \<Longrightarrow> truediv t max_time = Inr (fdiv (fnum t) (fnum max_time))"
  by (cases t; cases max_time; cases "fnum max_time") (auto simp: is_zero_def)

lemma flt_finite: "is_finite a \<Longrightarrow> is_finite b \<Longrightarrow> flt a b \<longleftrightarrow> fval a < fval b"
  by (cases a; cases b) simp_all

lemma fle_finite: "is_finite a \<Longrightarrow> is_finite b \<Longrightarrow> fle a b \<longleftrightarrow> fval a \<le> fval b"
  by (cases a; cases b) (auto simp: fle_def)

text \<open>What a call that returns has computed, for a positive \<open>max_time\<close>.\<close>

lemma color_channels_Inr:
  assumes "flt (Finite 0) (fnum max_time)"
  shows "color_channels t max_time = Inr (r, g, b) \<longleftrightarrow>
           is_finite (fmul (Finite 255) (fdiv (fnum t) (fnum max_time)))
         \<and> is_finite (fmul (Finite 255) (fsub (Finite 1) (fdiv (fnum t) (fnum max_time))))
         \<and> r = min 255 (py_trunc (fval
                 (fmul (Finite 255) (fdiv (fnum t) (fnum max_time)))))
         \<and> g = min 255 (py_trunc (fval
                 (fmul (Finite 255) (fsub (Finite 1) (fdiv (fnum t) (fnum max_time))))))
         \<and> b = 0"
proof
  assume "color_channels t max_time = Inr (r, g, b)"
  then show "is_finite (fmul (Finite 255) (fdiv (fnum t) (fnum max_time)))
         \<and> is_finite (fmul (Finite 255) (fsub (Finite 1) (fdiv (fnum t) (fnum max_time))))
         \<and> r = min 255 (py_trunc (fval
                 (fmul (Finite 255) (fdiv (fnum t) (fnum max_time)))))
         \<and> g = min 255 (py_trunc (fval
                 (fmul (Finite 255) (fsub (Finite 1) (fdiv (fnum t) (fnum max_time))))))
         \<and> b = 0"
    by (auto simp: color_channels_def truediv_positive [OF assms] py_int_Inr
             split: sum.splits)
next
  assume "is_finite (fmul (Finite 255) (fdiv (fnum t) (fnum max_time)))
         \<and> is_finite (fmul (Finite 255) (fsub (Finite 1) (fdiv (fnum t) (fnum max_time))))
         \<and> r = min 255 (py_trunc (fval
                 (fmul (Finite 255) (fdiv (fnum t) (fnum max_time)))))
         \<and> g = min 255 (py_trunc (fval
                 (fmul (Finite 255) (fsub (Finite 1) (fdiv (fnum t) (fnum max_time))))))
         \<and> b = 0"
  then show "color_channels t max_time = Inr (r, g, b)"
    by (simp add: color_channels_def truediv_positive [OF assms] py_int_finite)
qed

section \<open>Properties of \<open>get_color_for_time\<close>\<close>

text \<open>
  The channels of a call that returns, in terms of the rounded ratio \<open>\<rho>\<close>.
\<close>

lemma color_channels_values:
  assumes pos: "flt (Finite 0) (fnum max_time)"
      and ret: "color_channels t max_time = Inr (r, g, b)"
      and rho: "\<rho> = (if fnum max_time = PosInf then 0
                     else rnd (fval (fnum t) / fval (fnum max_time)))"
  shows "is_finite (fnum t)"
    and "r = min 255 (py_trunc (rnd (255 * \<rho>)))"
    and "g = min 255 (py_trunc (rnd (255 * rnd (1 - \<rho>))))"
    and "b = 0"
proof -
  let ?ratio = "fdiv (fnum t) (fnum max_time)"
  have fin: "is_finite (fmul (Finite 255) ?ratio)"
            "is_finite (fmul (Finite 255) (fsub (Finite 1) ?ratio))"
    and r: "r = min 255 (py_trunc (fval (fmul (Finite 255) ?ratio)))"
    and g: "g = min 255 (py_trunc (fval (fmul (Finite 255) (fsub (Finite 1) ?ratio))))"
    and b: "b = 0"
    using ret by (simp_all add: color_channels_Inr [OF pos])
  have ratio_fin: "is_finite ?ratio"
    using fin(1) by (simp add: fmul_255_finite)
  then show "is_finite (fnum t)"
    by (simp add: fdiv_positive_finite [OF pos])
  have ratio_val: "fval ?ratio = \<rho>"
    using fdiv_positive_val [OF pos ratio_fin] rho by simp
  show "r = min 255 (py_trunc (rnd (255 * \<rho>)))"
    using r fmul_255_val [OF fin(1)] ratio_val by simp
  have sub_fin: "is_finite (fsub (Finite 1) ?ratio)"
    using fin(2) by (simp add: fmul_255_finite)
  have "fval (fsub (Finite 1) ?ratio) = rnd (1 - \<rho>)"
    using fsub_1_val [OF sub_fin] ratio_val by simp
  then show "g = min 255 (py_trunc (rnd (255 * rnd (1 - \<rho>))))"
    using g fmul_255_val [OF fin(2)] by simp
  show "b = 0" by (rule b)
qed

text \<open>A finite duration from zero up to a positive \<open>max_time\<close> gets a colour.\<close>

lemma color_channels_returns:
  assumes pos: "flt (Finite 0) (fnum max_time)"
      and fin: "is_finite (fnum t)"
      and nonneg: "0 \<le> fval (fnum t)"
      and le: "fle (fnum t) (fnum max_time)"
  shows "\<exists>r g. color_channels t max_time = Inr (r, g, 0)"
proof -
  let ?ratio = "fdiv (fnum t) (fnum max_time)"
  define \<rho> where "\<rho> = (if fnum max_time = PosInf then 0
                       else rnd (fval (fnum t) / fval (fnum max_time)))"
  have small: "\<bar>x\<bar> < 2 ^ 1024" if "0 \<le> x" "x \<le> 255" for x :: real
  proof -
    have "(255::real) < 2 ^ 1024" by simp
    then show ?thesis using that by linarith
  qed
  have unit: "0 \<le> rnd x \<and> rnd x \<le> 1" if "0 \<le> x" "x \<le> 1" for x
    using that rnd_nonneg [of x] rnd_mono [of x 1] by (simp add: rnd_1)
  have byte: "0 \<le> rnd (255 * x) \<and> rnd (255 * x) \<le> 255" if "0 \<le> x" "x \<le> 1" for x
    using that rnd_nonneg [of "255 * x"] rnd_mono [of "255 * x" 255] by (simp add: rnd_255)
  have rho: "0 \<le> \<rho> \<and> \<rho> \<le> 1"
  proof (cases "fnum max_time = PosInf")
    case True
    then show ?thesis by (simp add: \<rho>_def)
  next
    case False
    then obtain v where v: "fnum max_time = Finite v" "0 < v"
      using positive_cases [OF pos] by auto
    then have "fval (fnum t) \<le> v"
      using le fin by (simp add: fle_finite)
    then have "0 \<le> fval (fnum t) / v" "fval (fnum t) / v \<le> 1"
      using nonneg v(2) by simp_all
    then show ?thesis using unit v by (simp add: \<rho>_def)
  qed
  have "fnum max_time = PosInf \<or> \<bar>rnd (fval (fnum t) / fval (fnum max_time))\<bar> < 2 ^ 1024"
  proof (cases "fnum max_time = PosInf")
    case True
    then show ?thesis by simp
  next
    case False
    then have "\<rho> = rnd (fval (fnum t) / fval (fnum max_time))" by (simp add: \<rho>_def)
    then show ?thesis using small [of \<rho>] rho by simp
  qed
  then have ratio_fin: "is_finite ?ratio"
    using fin by (simp only: fdiv_positive_finite [OF pos] simp_thms)
  have ratio_val: "fval ?ratio = \<rho>"
    using fdiv_positive_val [OF pos ratio_fin] by (simp add: \<rho>_def)
  have "\<bar>rnd (255 * \<rho>)\<bar> < 2 ^ 1024"
    using byte [of \<rho>] rho by (intro small) simp_all
  then have red: "is_finite (fmul (Finite 255) ?ratio)"
    using ratio_fin by (simp only: fmul_255_finite ratio_val simp_thms)
  have "\<bar>rnd (1 - \<rho>)\<bar> < 2 ^ 1024"
    using unit [of "1 - \<rho>"] rho by (intro small) simp_all
  then have sub_fin: "is_finite (fsub (Finite 1) ?ratio)"
    using ratio_fin by (simp only: fsub_1_finite ratio_val simp_thms)
  have sub_val: "fval (fsub (Finite 1) ?ratio) = rnd (1 - \<rho>)"
    using fsub_1_val [OF sub_fin] ratio_val by simp
  have "\<bar>rnd (255 * rnd (1 - \<rho>))\<bar> < 2 ^ 1024"
    using byte [of "rnd (1 - \<rho>)"] unit [of "1 - \<rho>"] rho by (intro small) simp_all
  then have green: "is_finite (fmul (Finite 255) (fsub (Finite 1) ?ratio))"
    using sub_fin by (simp only: fmul_255_finite sub_val simp_thms)
  show ?thesis
    using red green by (simp add: color_channels_Inr [OF pos])
qed

lemma format_02x_zero: "format_02x 0 = ''00''"
  by (simp add: format_02x_def hex_digit_def)

lemma get_color_for_time_Inr:
  "color_channels t max_time = Inr (r, g, 0) \<Longrightarrow>
     get_color_for_time t max_time =
       Inr (CHR ''#'' # format_02x r @ format_02x g @ ''00'')"
  by (simp add: get_color_for_time_def format_02x_zero)

lemma below_finite:
  "fle (Finite 0) a \<Longrightarrow> flt a b \<Longrightarrow> is_finite b \<Longrightarrow> is_finite a \<and> 0 \<le> fval a"
  by (cases a; cases b) (simp_all add: fle_def)

lemma fle_trans_lt: "flt a b \<Longrightarrow> fle b c \<Longrightarrow> fle a c"
  by (cases a; cases b; cases c) (simp_all add: fle_def)

text \<open>
  Claim C7.  Let \<open>max_time\<close> be positive and \<open>d1 < d2\<close>, as Python compares floats.
  Whenever \<open>get_color_for_time\<close> assigns a colour to both durations, the red channel of
  \<open>d1\<close> is at most that of \<open>d2\<close>, the green channel of \<open>d1\<close> is at least that of \<open>d2\<close>, and
  both blue channels are zero: every step (the rounded division, the rounded product with
  255, the rounded difference from 1, the truncation, the minimum) is monotone.  And a
  colour is assigned to both, the text \<open>#\<close> followed by the three channels in \<open>02x\<close>
  format, when the durations are finite, not negative and at most \<open>max_time\<close>.  Outside
  this range \<open>int()\<close> may raise: on the infinity of an overflowing quotient, or on a nan.
\<close>

theorem color_channels_monotone:
  assumes pos: "flt (Finite 0) (fnum max_time)"
      and lt: "flt (fnum d1) (fnum d2)"
  shows "(\<forall>r1 g1 b1 r2 g2 b2.
            color_channels d1 max_time = Inr (r1, g1, b1)
          \<and> color_channels d2 max_time = Inr (r2, g2, b2)
          \<longrightarrow> r1 \<le> r2 \<and> g2 \<le> g1 \<and> b1 = 0 \<and> b2 = 0)
       \<and> (fle (Finite 0) (fnum d1) \<and> fle (fnum d2) (fnum max_time) \<and> is_finite (fnum d2)
          \<longrightarrow> (\<exists>r1 g1 r2 g2.
                 color_channels d1 max_time = Inr (r1, g1, 0)
               \<and> color_channels d2 max_time = Inr (r2, g2, 0)
               \<and> get_color_for_time d1 max_time =
                   Inr (CHR ''#'' # format_02x r1 @ format_02x g1 @ ''00'')
               \<and> get_color_for_time d2 max_time =
                   Inr (CHR ''#'' # format_02x r2 @ format_02x g2 @ ''00'')
               \<and> r1 \<le> r2 \<and> g2 \<le> g1))"
proof -
  have mono: "r1 \<le> r2 \<and> g2 \<le> g1 \<and> b1 = 0 \<and> b2 = 0"
    if c1: "color_channels d1 max_time = Inr (r1, g1, b1)"
    and c2: "color_channels d2 max_time = Inr (r2, g2, b2)"
    for r1 g1 b1 r2 g2 b2
  proof -
    define \<rho>1 where "\<rho>1 = (if fnum max_time = PosInf then 0
                          else rnd (fval (fnum d1) / fval (fnum max_time)))"
    define \<rho>2 where "\<rho>2 = (if fnum max_time = PosInf then 0
                          else rnd (fval (fnum d2) / fval (fnum max_time)))"
    note v1 = color_channels_values [OF pos c1 \<rho>1_def]
    note v2 = color_channels_values [OF pos c2 \<rho>2_def]
    have "fval (fnum d1) < fval (fnum d2)"
      using lt v1(1) v2(1) by (simp add: flt_finite)
    then have ratio: "\<rho>1 \<le> \<rho>2"
      using positive_cases [OF pos]
      by (auto simp: \<rho>1_def \<rho>2_def intro!: rnd_mono divide_right_mono)
    have "py_trunc (rnd (255 * \<rho>1)) \<le> py_trunc (rnd (255 * \<rho>2))"
      using ratio by (intro py_trunc_mono rnd_mono) simp
    then have red: "r1 \<le> r2"
      unfolding v1(2) v2(2) by (simp add: min.coboundedI2)
    have "rnd (1 - \<rho>2) \<le> rnd (1 - \<rho>1)"
      using ratio by (intro rnd_mono) simp
    then have "py_trunc (rnd (255 * rnd (1 - \<rho>2))) \<le> py_trunc (rnd (255 * rnd (1 - \<rho>1)))"
      by (intro py_trunc_mono rnd_mono) simp
    then have green: "g2 \<le> g1"
      unfolding v1(3) v2(3) by (simp add: min.coboundedI2)
    show ?thesis using red green v1(4) v2(4) by simp
  qed
  have assigned: "\<exists>r1 g1 r2 g2.
                 color_channels d1 max_time = Inr (r1, g1, 0)
               \<and> color_channels d2 max_time = Inr (r2, g2, 0)
               \<and> get_color_for_time d1 max_time =
                   Inr (CHR ''#'' # format_02x r1 @ format_02x g1 @ ''00'')
               \<and> get_color_for_time d2 max_time =
                   Inr (CHR ''#'' # format_02x r2 @ format_02x g2 @ ''00'')
               \<and> r1 \<le> r2 \<and> g2 \<le> g1"
    if range: "fle (Finite 0) (fnum d1)" "fle (fnum d2) (fnum max_time)"
              "is_finite (fnum d2)"
  proof -
    have f1: "is_finite (fnum d1)" "0 \<le> fval (fnum d1)"
      using below_finite [OF range(1) lt range(3)] by simp_all
    have "fval (fnum d1) < fval (fnum d2)"
      using lt f1(1) range(3) by (simp add: flt_finite)
    then have f2: "0 \<le> fval (fnum d2)" using f1(2) by simp
    have le1: "fle (fnum d1) (fnum max_time)"
      using lt range(2) by (rule fle_trans_lt)
    obtain r1 g1 where c1: "color_channels d1 max_time = Inr (r1, g1, 0)"
      using color_channels_returns [OF pos f1 le1] by auto
    obtain r2 g2 where c2: "color_channels d2 max_time = Inr (r2, g2, 0)"
      using color_channels_returns [OF pos range(3) f2 range(2)] by auto
    show ?thesis
      using c1 c2 mono [OF c1 c2] get_color_for_time_Inr [OF c1]
            get_color_for_time_Inr [OF c2]
      by blast
  qed
  show ?thesis using mono assigned by blast
qed

text \<open>Rounding at a value whose binade is given.\<close>

lemma rnd_eval:
  assumes "- 1022 \<le> e" "e \<le> 1023"
      and "e = - 1022 \<or> 2 powi e \<le> \<bar>x\<bar>"
      and "e = 1023 \<or> \<bar>x\<bar> < 2 powi (e + 1)"
  shows "rnd x = of_int (rne (x / 2 powi (e - 52))) * 2 powi (e - 52)"
  using exponent_eqI [OF assms] by (simp add: rnd_eq)

lemma rnd_4_5: "rnd (4 / 5) = 3602879701896397 / 4503599627370496"
  by (subst rnd_eval [of "- 1"]) (simp_all add: rne_def Let_def)

lemma rnd_red_24: "rnd (918734323983581235 / 4503599627370496) = 204"
  by (subst rnd_eval [of 7]) (simp_all add: rne_def Let_def)

lemma rnd_sub_24: "rnd (900719925474099 / 4503599627370496)
                     = 900719925474099 / 4503599627370496"
  by (subst rnd_eval [of "- 3"]) (simp_all add: rne_def Let_def)

lemma rnd_green_24: "rnd (229683580995895245 / 4503599627370496)
                       = 3588805953060863 / 70368744177664"
  by (subst rnd_eval [of 5]) (simp_all add: rne_def Let_def)

lemma ratio_24_30:
  "fdiv (Finite 24) (Finite 30) = Finite (3602879701896397 / 4503599627370496)"
  by (simp add: fdiv_def is_zero_def round_double_def rnd_4_5)

lemma red_24_30:
  "fmul (Finite 255) (Finite (3602879701896397 / 4503599627370496)) = Finite 204"
  by (simp add: fmul_def is_zero_def round_double_def rnd_red_24)

lemma sub_24_30:
  "fsub (Finite 1) (Finite (3602879701896397 / 4503599627370496))
     = Finite (900719925474099 / 4503599627370496)"
  by (simp add: fsub_def round_double_def rnd_sub_24)

lemma green_24_30:
  "fmul (Finite 255) (Finite (900719925474099 / 4503599627370496))
     = Finite (3588805953060863 / 70368744177664)"
  by (simp add: fmul_def is_zero_def round_double_def rnd_green_24)

lemma channels_24_30:
  "color_channels (PyFloat (Finite 24)) (PyFloat (Finite 30)) = Inr (204, 50, 0)"
  by (simp add: color_channels_def is_zero_def ratio_24_30 red_24_30 sub_24_30
                green_24_30 py_trunc_def)

lemma rnd_half: "rnd (1 / 2) = 1 / 2"
  by (subst rnd_eval [of "- 1"]) (simp_all add: rne_def Let_def)

lemma rnd_red_15: "rnd (255 / 2) = 255 / 2"
  by (subst rnd_eval [of 6]) (simp_all add: rne_def Let_def)

lemma channels_15_30:
  "color_channels (PyFloat (Finite 15)) (PyFloat (Finite 30)) = Inr (127, 127, 0)"
proof -
  have ratio: "fdiv (Finite 15) (Finite 30) = Finite (1 / 2)"
    by (simp add: fdiv_def is_zero_def round_double_def rnd_half)
  have red: "fmul (Finite 255) (Finite (1 / 2)) = Finite (255 / 2)"
    by (simp add: fmul_def is_zero_def round_double_def rnd_red_15)
  have sub: "fsub (Finite 1) (Finite (1 / 2)) = Finite (1 / 2)"
    by (simp add: fsub_def round_double_def rnd_half)
  show ?thesis
    by (simp add: color_channels_def is_zero_def ratio red sub py_trunc_def)
qed




text \<open>
  The theorem at the durations 15 and 24 of a frame whose longest duration is 30.  The
  green channel of 24 is 50, not the 51 of exact arithmetic: \<open>1 - 0.8\<close> rounds to a
  double just below \<open>0.2\<close>.
\<close>

theorem color_channels_monotone_witness:
  "flt (Finite 0) (Finite 30) \<and> flt (Finite 15) (Finite 24)
   \<and> fle (Finite 0) (Finite 15) \<and> fle (Finite 24) (Finite 30) \<and> is_finite (Finite 24)
   \<and> color_channels (PyFloat (Finite 15)) (PyFloat (Finite 30)) = Inr (127, 127, 0)
   \<and> color_channels (PyFloat (Finite 24)) (PyFloat (Finite 30)) = Inr (204, 50, 0)
   \<and> get_color_for_time (PyFloat (Finite 15)) (PyFloat (Finite 30)) = Inr ''#7f7f00''
   \<and> get_color_for_time (PyFloat (Finite 24)) (PyFloat (Finite 30)) = Inr ''#cc3200''
   \<and> (\<exists>r1 g1 r2 g2.
          color_channels (PyFloat (Finite 15)) (PyFloat (Finite 30)) = Inr (r1, g1, 0)
        \<and> color_channels (PyFloat (Finite 24)) (PyFloat (Finite 30)) = Inr (r2, g2, 0)
        \<and> r1 \<le> r2 \<and> g2 \<le> g1)"
proof -
  have pos: "flt (Finite 0) (fnum (PyFloat (Finite 30)))" by simp
  have lt: "flt (fnum (PyFloat (Finite 15))) (fnum (PyFloat (Finite 24)))" by simp
  have range: "fle (Finite 0) (Finite 15)" "fle (Finite 24) (Finite 30)"
              "is_finite (Finite 24)"
    by (simp_all add: fle_def)
  have shown: "get_color_for_time (PyFloat (Finite 15)) (PyFloat (Finite 30)) = Inr ''#7f7f00''"
              "get_color_for_time (PyFloat (Finite 24)) (PyFloat (Finite 30)) = Inr ''#cc3200''"
    by (simp_all add: get_color_for_time_def channels_15_30 channels_24_30
                      format_02x_def hex_digit_def)
  have "\<exists>r1 g1 r2 g2.
          color_channels (PyFloat (Finite 15)) (PyFloat (Finite 30)) = Inr (r1, g1, 0)
        \<and> color_channels (PyFloat (Finite 24)) (PyFloat (Finite 30)) = Inr (r2, g2, 0)
        \<and> r1 \<le> r2 \<and> g2 \<le> g1"
    using color_channels_monotone [OF pos lt] range by auto
  then show ?thesis
    using range channels_15_30 channels_24_30 shown by simp
qed

subsection \<open>Where rounding overflows\<close>

lemma rnd_threshold: "rnd (2 ^ 1024 - 2 ^ 970) = 2 ^ 1024"
  by (subst rnd_eval [of 1023]) (simp_all add: rne_def Let_def)

lemma rne_below_half:
  assumes "z < of_int n + 1 / 2"
  shows "rne z \<le> n"
proof (cases "\<lfloor>z\<rfloor> < n")
  case True
  then show ?thesis using rne_floor(2) [of z] by linarith
next
  case False
  have "of_int \<lfloor>z\<rfloor> \<le> z" by simp
  then have "of_int \<lfloor>z\<rfloor> < (of_int n :: real) + 1" using assms by linarith
  then have "\<lfloor>z\<rfloor> < n + 1" by (metis of_int_1 of_int_add of_int_less_iff)
  then have fl: "\<lfloor>z\<rfloor> = n" using False by simp
  then have "z - of_int \<lfloor>z\<rfloor> < 1 / 2" using assms by simp
  then show ?thesis by (simp add: rne_def Let_def fl)
qed

lemma rnd_below_threshold:
  assumes "0 \<le> x" and "x < 2 ^ 1024 - 2 ^ 970"
  shows "rnd x < 2 ^ 1024"
proof (cases "exponent x < 1023")
  case True
  then have "rnd x \<le> 2 powi (exponent x + 1)"
    using assms(1) by (rule rnd_le_binade)
  also have "\<dots> \<le> 2 powi 1023"
    using True by (intro pow2_mono) simp
  also have "\<dots> < 2 powi 1024"
    by (intro power_int_strict_increasing) simp_all
  finally show ?thesis by simp
next
  case False
  then have e: "exponent x = 1023" using exponent_range(2) [of x] by simp
  let ?u = "(2::real) powi 971"
  have top: "(2 ^ 1024 - 2 ^ 970 :: real) = (of_int (2 ^ 53 - 1) + 1 / 2) * ?u"
    by simp
  have "x < (of_int (2 ^ 53 - 1) + 1 / 2) * ?u"
    using assms(2) by (simp only: top)
  then have "x / ?u < of_int (2 ^ 53 - 1) + 1 / 2"
    by (simp only: pos_divide_less_eq [OF ulp_pos])
  then have "rne (x / ?u) \<le> 2 ^ 53 - 1" by (rule rne_below_half)
  then have "rne (x / ?u) < 2 ^ 53" by simp
  then have "(of_int (rne (x / ?u)) :: real) < of_int (2 ^ 53)" by (simp only: of_int_less_iff)
  then have "of_int (rne (x / ?u)) * ?u < of_int (2 ^ 53) * ?u"
    by (intro mult_strict_right_mono ulp_pos)
  also have "of_int (2 ^ 53) * ?u = 2 ^ 1024" by simp
  finally have "of_int (rne (x / ?u)) * ?u < 2 ^ 1024" .
  moreover have "rnd x = of_int (rne (x / ?u)) * ?u"
    by (simp add: rnd_eq e)
  ultimately show ?thesis by (simp only:)
qed


text \<open>
  A positive result overflows exactly from the midpoint between the largest double and
  \<open>2 ^ 1024\<close> on.
\<close>

lemma round_double_overflow:
  assumes "0 < x"
  shows "round_double x = PosInf \<longleftrightarrow> 2 ^ 1024 - 2 ^ 970 \<le> x"
proof
  assume "round_double x = PosInf"
  then have "\<not> is_finite (round_double x)" by simp
  then have big: "\<not> \<bar>rnd x\<bar> < 2 ^ 1024"
    by (simp only: round_double_finite simp_thms)
  show "2 ^ 1024 - 2 ^ 970 \<le> x"
  proof (rule ccontr)
    assume "\<not> 2 ^ 1024 - 2 ^ 970 \<le> x"
    then have "x < 2 ^ 1024 - 2 ^ 970" by (simp only: not_le)
    then have "rnd x < 2 ^ 1024"
      using assms by (intro rnd_below_threshold) simp_all
    moreover have "0 \<le> rnd x" using assms by (intro rnd_nonneg) simp
    ultimately have "\<bar>rnd x\<bar> < 2 ^ 1024" by (simp only: abs_of_nonneg)
    then show False using big by (simp only: simp_thms)
  qed
next
  assume "2 ^ 1024 - 2 ^ 970 \<le> x"
  then have "rnd (2 ^ 1024 - 2 ^ 970) \<le> rnd x" by (rule rnd_mono)
  then have "2 ^ 1024 \<le> rnd x" by (simp only: rnd_threshold)
  moreover have "rnd x \<le> \<bar>rnd x\<bar>" by (rule abs_ge_self)
  ultimately have "2 ^ 1024 \<le> \<bar>rnd x\<bar>" by (rule order_trans)
  moreover have "\<not> x < 0" using assms by simp
  ultimately show "round_double x = PosInf"
    by (simp only: round_double_def Let_def signed_inf_def if_True if_False)
qed

section \<open>Properties of the batching loop\<close>

declare batch_starts.simps [simp del]

lemma batch_starts_step: "i < n \<Longrightarrow> batch_starts i n = i # batch_starts (i + batch_size) n"
  by (subst batch_starts.simps) simp

lemma batch_starts_done: "\<not> i < n \<Longrightarrow> batch_starts i n = []"
  by (subst batch_starts.simps) simp

lemma batch_step_div:
  assumes "i < n"
  shows "Suc ((n - (i + 25) + 24) div 25) = (n - i + 24) div (25::nat)"
proof (cases "n - i < 25")
  case True
  then have a: "n - (i + 25) = 0" by simp
  have "25 * 1 \<le> n - i + 24" "n - i + 24 < 25 * Suc 1"
    using assms True by simp_all
  then have "(n - i + 24) div 25 = 1"
    by (rule div_nat_eqI)
  then show ?thesis using a by simp
next
  case False
  then obtain d where d: "n - i = d + 25"
    by (metis add.commute le_Suc_ex not_less)
  then have "n - (i + 25) = d" by simp
  then show ?thesis using d by simp
qed

lemma batch_starts_length: "length (batch_starts i n) = (n - i + 24) div 25"
proof (induction i n rule: batch_starts.induct)
  case (1 i n)
  show ?case
  proof (cases "i < n")
    case True
    have "length (batch_starts i n) = Suc (length (batch_starts (i + batch_size) n))"
      by (simp add: batch_starts_step [OF True])
    also have "\<dots> = Suc ((n - (i + 25) + 24) div 25)"
      using "1.IH" [OF True] by (simp add: batch_size_def)
    also have "\<dots> = (n - i + 24) div 25"
      by (rule batch_step_div [OF True])
    finally show ?thesis .
  next
    case False
    then have "n - i = 0" by simp
    then show ?thesis by (simp add: batch_starts_done [OF False])
  qed
qed

lemma batch_starts_nth:
  "k < length (batch_starts i n) \<Longrightarrow> batch_starts i n ! k = i + 25 * k"
proof (induction i n arbitrary: k rule: batch_starts.induct)
  case (1 i n)
  show ?case
  proof (cases "i < n")
    case True
    note unfold = batch_starts_step [OF True]
    show ?thesis
    proof (cases k)
      case 0
      then show ?thesis by (simp add: unfold)
    next
      case (Suc k')
      then have "k' < length (batch_starts (i + batch_size) n)"
        using "1.prems" by (simp add: unfold)
      then have "batch_starts (i + batch_size) n ! k' = i + batch_size + 25 * k'"
        using "1.IH" [OF True] by blast
      then show ?thesis using Suc by (simp add: unfold batch_size_def)
    qed
  next
    case False
    then show ?thesis using "1.prems" by (simp add: batch_starts_done)
  qed
qed

lemma batch_starts_concat:
  "length xs = n \<Longrightarrow>
     concat (map (\<lambda>j. iloc_slice xs j (j + batch_size)) (batch_starts i n)) = drop i xs"
proof (induction i n rule: batch_starts.induct)
  case (1 i n)
  show ?case
  proof (cases "i < n")
    case True
    have "concat (map (\<lambda>j. iloc_slice xs j (j + batch_size)) (batch_starts i n))
          = take batch_size (drop i xs) @ drop (i + batch_size) xs"
      using "1.IH" [OF True "1.prems"]
      by (simp add: batch_starts_step [OF True] iloc_slice_def)
    also have "\<dots> = take batch_size (drop i xs) @ drop batch_size (drop i xs)"
      by (simp add: add.commute)
    also have "\<dots> = drop i xs"
      by (rule append_take_drop_id)
    finally show ?thesis .
  next
    case False
    then show ?thesis using "1.prems" by (simp add: batch_starts_done)
  qed
qed

lemma batches_length: "length (batches xs) = (length xs + 24) div 25"
  by (simp add: batches_def batch_starts_length)

lemma batches_nth:
  "k < length (batches xs) \<Longrightarrow> batches xs ! k = take 25 (drop (25 * k) xs)"
  by (simp add: batches_def batch_starts_nth iloc_slice_def batch_size_def)

lemma batches_nth_length:
  assumes "k < length (batches xs)"
  shows "length (batches xs ! k) =
           (if Suc k < length (batches xs) then 25 else length xs - 25 * k)
         \<and> 0 < length (batches xs ! k) \<and> length (batches xs ! k) \<le> 25"
proof -
  have k: "k < (length xs + 24) div 25"
    using assms by (simp add: batches_length)
  then have "Suc k \<le> (length xs + 24) div 25" by simp
  then have "Suc k * 25 \<le> length xs + 24"
    using less_eq_div_iff_mult_less_eq [of 25 "Suc k" "length xs + 24"] by simp
  then have lo: "25 * k < length xs" by simp
  have len: "length (batches xs ! k) = min (length xs - 25 * k) 25"
    using assms by (simp add: batches_nth)
  show ?thesis
  proof (cases "Suc k < length (batches xs)")
    case True
    then have "Suc (Suc k) \<le> (length xs + 24) div 25" by (simp add: batches_length)
    then have "Suc (Suc k) * 25 \<le> length xs + 24"
      using less_eq_div_iff_mult_less_eq [of 25 "Suc (Suc k)" "length xs + 24"] by simp
    then have "25 * Suc k < length xs" by simp
    then show ?thesis using True len by simp
  next
    case False
    then have "(length xs + 24) div 25 < Suc (Suc k)" by (simp add: batches_length)
    then have "length xs + 24 < Suc (Suc k) * 25"
      using div_less_iff_less_mult [of 25 "length xs + 24" "Suc (Suc k)"] by simp
    then have "length xs - 25 * k \<le> 25" by simp
    then show ?thesis using False len lo by simp
  qed
qed

text \<open>
  Claim C8.  The batches of a sample are consecutive slices of it: batch \<open>k\<close> holds the 25
  rows from position \<open>25 * k\<close> on, or the rows that are left.  Put end to end they are the
  sample again, so every sampled row is in exactly one batch, once.  There are
  \<open>\<lceil>n / 25\<rceil>\<close> batches; each but the last holds 25 rows and the last holds the
  remaining ones, between 1 and 25 (fewer than 25 exactly when \<open>n\<close> is not a multiple of
  25).  A sample of 60 rows gives batches of 25, 25 and 10 rows.
\<close>

theorem batches_partition:
  "concat (batches xs) = xs
   \<and> length (batches xs) = (length xs + 24) div 25
   \<and> (\<forall>k < length (batches xs).
         batches xs ! k = take 25 (drop (25 * k) xs)
       \<and> length (batches xs ! k) =
           (if Suc k < length (batches xs) then 25 else length xs - 25 * k)
       \<and> 0 < length (batches xs ! k) \<and> length (batches xs ! k) \<le> 25)
   \<and> (length xs = 60 \<longrightarrow> map length (batches xs) = [25, 25, 10])"
proof -
  have cover: "concat (batches xs) = xs"
    using batch_starts_concat [of xs "length xs" 0] by (simp add: batches_def)
  have sixty: "map length (batches xs) = [25, 25, 10]" if n: "length xs = 60"
  proof -
    have l: "length (batches xs) = 3" using n by (simp add: batches_length)
    have "length (batches xs ! 0) = 25" "length (batches xs ! Suc 0) = 25"
         "length (batches xs ! Suc (Suc 0)) = 10"
      using l n by (simp_all add: batches_nth)
    then have "\<forall>k < 3. map length (batches xs) ! k = [25, 25, 10] ! k"
      using l by (simp add: less_Suc_eq numeral_3_eq_3)
    then show ?thesis using l by (simp add: list_eq_iff_nth_eq)
  qed
  show ?thesis
    using cover sixty batches_length batches_nth batches_nth_length by blast
qed

text \<open>The theorem at a sample of 60 rows, and at one of 3 rows.\<close>

theorem batches_partition_witness:
  "map length (batches (replicate 60 (0::nat))) = [25, 25, 10]
   \<and> batches [1, 2, 3 :: nat] = [[1, 2, 3]]"
proof -
  have a: "length (replicate 60 (0::nat)) = 60" by simp
  have b: "length (batches [1, 2, 3 :: nat]) = 1"
    using batches_partition [of "[1, 2, 3 :: nat]"] by simp
  have c: "batches [1, 2, 3 :: nat] ! 0 = [1, 2, 3]"
    using b batches_partition [of "[1, 2, 3 :: nat]"] by simp
  have d: "batches [1, 2, 3 :: nat] = [[1, 2, 3]]"
    using b c by (cases "batches [1, 2, 3 :: nat]") simp_all
  show ?thesis
    using a d batches_partition [of "replicate 60 (0::nat)"] by blast
qed

section \<open>Properties of \<open>geocode_address\<close>\<close>

text \<open>
  Claim C3, as stated, at a reply with status \<open>OK\<close> and an empty list of results: the
  call raises \<open>IndexError\<close>, it does not return the failure signal \<open>(None, None)\<close>.
\<close>

theorem geocode_address_empty_results_raises:
  "geocode_address (\<lambda>a. \<lparr>status = ''OK'', results = []\<rparr>) ''1 Main St'' = Inl IndexError
   \<and> geocode_address (\<lambda>a. \<lparr>status = ''OK'', results = []\<rparr>) ''1 Main St''
       \<noteq> Inr (None, None)"
  by (simp add: geocode_address_def)

text \<open>
  Claim C3, amended.  When the provider reports a status other than \<open>OK\<close>,
  \<open>geocode_address\<close> returns the failure signal \<open>(None, None)\<close> and does not raise.  When
  the status is \<open>OK\<close> and the list of results has a first candidate, it returns that
  candidate's coordinate pair, and the short name of the candidate's first address
  component of type \<open>administrative_area_level_1\<close>, or \<open>None\<close> when it has no such
  component.
\<close>

theorem geocode_address_cases:
  "(status (http_get address) \<noteq> ''OK''
      \<longrightarrow> geocode_address http_get address = Inr (None, None))
   \<and> (status (http_get address) = ''OK'' \<and> results (http_get address) = candidate # others
      \<longrightarrow> geocode_address http_get address =
            Inr (Some (lat candidate, lng candidate),
                 find_state (address_components candidate)))"
  by (simp add: geocode_address_def)

text \<open>The theorem at a reply without results, and at a reply for an address in Virginia.\<close>

theorem geocode_address_cases_witness:
  "geocode_address (\<lambda>a. \<lparr>status = ''ZERO_RESULTS'', results = []\<rparr>) ''nowhere''
     = Inr (None, None)
   \<and> geocode_address
       (\<lambda>a. \<lparr>status = ''OK'',
              results =
                [\<lparr>lat = 38, lng = -77,
                  address_components =
                    [\<lparr>types = [''locality'', ''political''], short_name = ''Arlington''\<rparr>,
                     \<lparr>types = [''administrative_area_level_1'', ''political''],
                      short_name = ''VA''\<rparr>]\<rparr>]\<rparr>)
       ''Arlington, VA''
     = Inr (Some (38, -77), Some ''VA'')"
proof -
  have a: "geocode_address (\<lambda>a. \<lparr>status = ''ZERO_RESULTS'', results = []\<rparr>) ''nowhere''
     = Inr (None, None)"
    using geocode_address_cases
            [of "\<lambda>a. \<lparr>status = ''ZERO_RESULTS'', results = []\<rparr>" "''nowhere''"]
    by simp
  have b: "geocode_address
       (\<lambda>a. \<lparr>status = ''OK'',
              results =
                [\<lparr>lat = 38, lng = -77,
                  address_components =
                    [\<lparr>types = [''locality'', ''political''], short_name = ''Arlington''\<rparr>,
                     \<lparr>types = [''administrative_area_level_1'', ''political''],
                      short_name = ''VA''\<rparr>]\<rparr>]\<rparr>)
       ''Arlington, VA''
     = Inr (Some (38, -77), Some ''VA'')"
    using geocode_address_cases
            [of "\<lambda>a. \<lparr>status = ''OK'',
              results =
                [\<lparr>lat = 38, lng = -77,
                  address_components =
                    [\<lparr>types = [''locality'', ''political''], short_name = ''Arlington''\<rparr>,
                     \<lparr>types = [''administrative_area_level_1'', ''political''],
                      short_name = ''VA''\<rparr>]\<rparr>]\<rparr>"
                "''Arlington, VA''"
                "\<lparr>lat = 38, lng = -77,
                  address_components =
                    [\<lparr>types = [''locality'', ''political''], short_name = ''Arlington''\<rparr>,
                     \<lparr>types = [''administrative_area_level_1'', ''political''],
                      short_name = ''VA''\<rparr>]\<rparr>" "[]"]
    by simp
  show ?thesis using a b by simp
qed

section \<open>Properties of \<open>run_calculation\<close>\<close>

text \<open>
  Claim C4.  When the geocoder returns its failure signal \<open>(None, None)\<close>,
  \<open>run_calculation\<close> returns the message \<open>Geocoding failed. Please check the address.\<close>
  and leaves the working directory as it was: neither the HTML map nor the CSV export
  is written.  Only the attributes of the calculator that record the request change.
\<close>

theorem run_calculation_geocoding_failed:
  assumes "geocode_address http_get address = Inr (None, None)"
  shows "run_calculation http_get provider draw self address max_time respect_state fs
         = (Inr ''Geocoding failed. Please check the address.'',
            self\<lparr>self_origin_address := Some address,
                 self_max_driving_time := Some max_time,
                 self_respect_state_lines := Some respect_state,
                 self_origin_state := None\<rparr>,
            fs)"
  using assms by (simp add: run_calculation_def)

text \<open>The theorem at a run from an empty directory with a provider that knows no address.\<close>

theorem run_calculation_geocoding_failed_witness:
  "run_calculation (\<lambda>a. \<lparr>status = ''ZERO_RESULTS'', results = []\<rparr>)
       (\<lambda>k. \<lparr>matrix_status = ''OK'', rows = None\<rparr>) (\<lambda>gdf n. take n gdf)
       \<lparr>self_api_key = Some ''key'', self_zip_gdf = Some [], self_results = None,
        self_origin_address = None, self_max_driving_time = None,
        self_respect_state_lines = None, self_origin_state = None\<rparr>
       ''nowhere'' 60 False Map.empty
     = (Inr ''Geocoding failed. Please check the address.'',
        \<lparr>self_api_key = Some ''key'', self_zip_gdf = Some [], self_results = None,
         self_origin_address = Some ''nowhere'', self_max_driving_time = Some 60,
         self_respect_state_lines = Some False, self_origin_state = None\<rparr>,
        Map.empty)"
proof -
  have failed: "geocode_address (\<lambda>a. \<lparr>status = ''ZERO_RESULTS'', results = []\<rparr>) ''nowhere''
                  = Inr (None, None)"
    by (simp add: geocode_address_def)
  show ?thesis
    using run_calculation_geocoding_failed [OF failed] by simp
qed

section \<open>Properties of \<open>export_results\<close>\<close>

text \<open>
  Claim C5.  \<open>export_results\<close> on an empty frame writes no file and returns no file name.
  On a frame with rows it writes, under the given name, a file whose header has the
  columns other than \<open>geometry\<close> and that has exactly one line per row of the frame, in
  order, with the row's cells of these columns.
\<close>

theorem export_results_rows:
  "export_results [] filename fs = (None, fs)
   \<and> (filtered_results \<noteq> [] \<longrightarrow>
        (\<exists>csv. export_results filtered_results filename fs
                  = (Some filename, fs(filename \<mapsto> CsvFile csv))
             \<and> header csv = [''zip_code'', ''state'', ''driving_time_minutes'']
             \<and> ''geometry'' \<notin> set (header csv)
             \<and> length (csv_rows csv) = length filtered_results
             \<and> (\<forall>k < length filtered_results.
                   csv_rows csv ! k =
                     (zip_code (filtered_results ! k), state (filtered_results ! k),
                      driving_time_minutes (filtered_results ! k)))))"
proof -
  have none: "export_results [] filename fs = (None, fs)"
    by (simp add: export_results_def)
  have some: "\<exists>csv. export_results filtered_results filename fs
                  = (Some filename, fs(filename \<mapsto> CsvFile csv))
             \<and> header csv = [''zip_code'', ''state'', ''driving_time_minutes'']
             \<and> ''geometry'' \<notin> set (header csv)
             \<and> length (csv_rows csv) = length filtered_results
             \<and> (\<forall>k < length filtered_results.
                   csv_rows csv ! k =
                     (zip_code (filtered_results ! k), state (filtered_results ! k),
                      driving_time_minutes (filtered_results ! k)))"
    if "filtered_results \<noteq> []"
    using that
    by (intro exI [of _ "\<lparr>header = [''zip_code'', ''state'', ''driving_time_minutes''],
                          csv_rows = map drop_geometry filtered_results\<rparr>"])
       (simp add: export_results_def drop_geometry_def)
  show ?thesis using none some by blast
qed

text \<open>The theorem at a frame of two rows, exported into an empty directory.\<close>

theorem export_results_rows_witness:
  "export_results
       [\<lparr>zip_code = ''22201'', state = ''VA'', driving_time_minutes = 15, geometry = []\<rparr>,
        \<lparr>zip_code = ''22202'', state = ''VA'', driving_time_minutes = 20, geometry = []\<rparr>]
       ''zip_codes_in_range.csv'' Map.empty
     = (Some ''zip_codes_in_range.csv'',
        [''zip_codes_in_range.csv'' \<mapsto>
           CsvFile \<lparr>header = [''zip_code'', ''state'', ''driving_time_minutes''],
                    csv_rows = [(''22201'', ''VA'', 15), (''22202'', ''VA'', 20)]\<rparr>])
   \<and> (\<exists>csv. export_results
       [\<lparr>zip_code = ''22201'', state = ''VA'', driving_time_minutes = 15, geometry = []\<rparr>,
        \<lparr>zip_code = ''22202'', state = ''VA'', driving_time_minutes = 20, geometry = []\<rparr>]
       ''zip_codes_in_range.csv'' Map.empty
          = (Some ''zip_codes_in_range.csv'',
             [''zip_codes_in_range.csv'' \<mapsto> CsvFile csv])
        \<and> length (csv_rows csv) = 2)"
proof -
  have run: "export_results
       [\<lparr>zip_code = ''22201'', state = ''VA'', driving_time_minutes = 15, geometry = []\<rparr>,
        \<lparr>zip_code = ''22202'', state = ''VA'', driving_time_minutes = 20, geometry = []\<rparr>]
       ''zip_codes_in_range.csv'' Map.empty
     = (Some ''zip_codes_in_range.csv'',
        [''zip_codes_in_range.csv'' \<mapsto>
           CsvFile \<lparr>header = [''zip_code'', ''state'', ''driving_time_minutes''],
                    csv_rows = [(''22201'', ''VA'', 15), (''22202'', ''VA'', 20)]\<rparr>])"
    by (simp add: export_results_def drop_geometry_def)
  have "\<exists>csv. export_results
       [\<lparr>zip_code = ''22201'', state = ''VA'', driving_time_minutes = 15, geometry = []\<rparr>,
        \<lparr>zip_code = ''22202'', state = ''VA'', driving_time_minutes = 20, geometry = []\<rparr>]
       ''zip_codes_in_range.csv'' Map.empty
          = (Some ''zip_codes_in_range.csv'',
             [''zip_codes_in_range.csv'' \<mapsto> CsvFile csv])
        \<and> length (csv_rows csv) = 2"
    using export_results_rows [of "''zip_codes_in_range.csv''" Map.empty
       "[\<lparr>zip_code = ''22201'', state = ''VA'', driving_time_minutes = 15, geometry = []\<rparr>,
        \<lparr>zip_code = ''22202'', state = ''VA'', driving_time_minutes = 20, geometry = []\<rparr>]"]
    by auto
  then show ?thesis using run by blast
qed

section \<open>Properties of \<open>create_map\<close>\<close>

text \<open>
  Claim C6.  For every origin, \<open>create_map\<close> on an empty frame saves, as
  \<open>driving_time_radius.html\<close>, a map centred on the origin with exactly one marker, the
  origin's, and no overlay.
\<close>

theorem create_map_empty:
  "create_map [] origin_coords fs =
     Inr (''driving_time_radius.html'',
          fs(''driving_time_radius.html'' \<mapsto>
               HtmlFile \<lparr>location = origin_coords, zoom_start = 10,
                         markers = [\<lparr>marker_location = origin_coords, popup = ''Origin'',
                                     icon_color = ''red'', icon_name = ''home''\<rparr>],
                         overlays = []\<rparr>))
   \<and> (\<exists>m. create_map [] origin_coords fs =
              Inr (''driving_time_radius.html'',
                   fs(''driving_time_radius.html'' \<mapsto> HtmlFile m))
          \<and> length (markers m) = 1
          \<and> marker_location (hd (markers m)) = origin_coords
          \<and> length (overlays m) = 0)"
proof -
  have saved: "create_map [] origin_coords fs =
     Inr (''driving_time_radius.html'',
          fs(''driving_time_radius.html'' \<mapsto>
               HtmlFile \<lparr>location = origin_coords, zoom_start = 10,
                         markers = [\<lparr>marker_location = origin_coords, popup = ''Origin'',
                                     icon_color = ''red'', icon_name = ''home''\<rparr>],
                         overlays = []\<rparr>))"
    by (simp add: create_map_def)
  have "\<exists>m. create_map [] origin_coords fs =
              Inr (''driving_time_radius.html'',
                   fs(''driving_time_radius.html'' \<mapsto> HtmlFile m))
          \<and> length (markers m) = 1
          \<and> marker_location (hd (markers m)) = origin_coords
          \<and> length (overlays m) = 0"
    by (intro exI [of _ "\<lparr>location = origin_coords, zoom_start = 10,
                         markers = [\<lparr>marker_location = origin_coords, popup = ''Origin'',
                                     icon_color = ''red'', icon_name = ''home''\<rparr>],
                         overlays = []\<rparr>"])
       (simp add: saved)
  then show ?thesis using saved by blast
qed





section \<open>Properties of \<open>calculate_driving_times\<close>\<close>

text \<open>Whatever the loop collected, the caller gets no frame.\<close>

lemma calculate_driving_times_no_frame:
  "calculate_driving_times provider draw self origin_coords sample_zips \<noteq> Inr (Some frame)"
  by (simp add: calculate_driving_times_def split: sum.splits)

text \<open>
  Claim C2, at a sample of one area whose route has a duration of 900 seconds.  The loop
  collects one result for it, with 15 minutes, at the position of the area in its batch;
  the call itself returns \<open>None\<close>, not the collection.
\<close>

theorem calculate_driving_times_returns_None:
  "driving_times_collected
       (\<lambda>k. \<lparr>matrix_status = ''OK'',
              rows = Some [\<lparr>elements = Some [\<lparr>duration = Some 900\<rparr>]\<rparr>]\<rparr>)
       (\<lambda>gdf n. take n gdf)
       \<lparr>self_api_key = Some ''key'', self_zip_gdf = None, self_results = None,
        self_origin_address = None, self_max_driving_time = None,
        self_respect_state_lines = None, self_origin_state = None\<rparr>
       (38, -77) (Some [\<lparr>ZCTA5 = ''22201'', area_geometry = []\<rparr>])
     = Inr [\<lparr>zip_code = ''22201'', state = ''VA'', driving_time_minutes = 15,
             geometry = []\<rparr>]
   \<and> calculate_driving_times
       (\<lambda>k. \<lparr>matrix_status = ''OK'',
              rows = Some [\<lparr>elements = Some [\<lparr>duration = Some 900\<rparr>]\<rparr>]\<rparr>)
       (\<lambda>gdf n. take n gdf)
       \<lparr>self_api_key = Some ''key'', self_zip_gdf = None, self_results = None,
        self_origin_address = None, self_max_driving_time = None,
        self_respect_state_lines = None, self_origin_state = None\<rparr>
       (38, -77) (Some [\<lparr>ZCTA5 = ''22201'', area_geometry = []\<rparr>])
     = Inr None"
proof -
  have one: "batches [\<lparr>ZCTA5 = ''22201'', area_geometry = []\<rparr>]
               = [[\<lparr>ZCTA5 = ''22201'', area_geometry = []\<rparr>]]"
    by (simp add: batches_def batch_starts_step batch_starts_done batch_size_def
                  iloc_slice_def)
  have collected: "driving_times_collected
       (\<lambda>k. \<lparr>matrix_status = ''OK'',
              rows = Some [\<lparr>elements = Some [\<lparr>duration = Some 900\<rparr>]\<rparr>]\<rparr>)
       (\<lambda>gdf n. take n gdf)
       \<lparr>self_api_key = Some ''key'', self_zip_gdf = None, self_results = None,
        self_origin_address = None, self_max_driving_time = None,
        self_respect_state_lines = None, self_origin_state = None\<rparr>
       (38, -77) (Some [\<lparr>ZCTA5 = ''22201'', area_geometry = []\<rparr>])
     = Inr [\<lparr>zip_code = ''22201'', state = ''VA'', driving_time_minutes = 15,
             geometry = []\<rparr>]"
    by (simp add: driving_times_collected_def one)
  then show ?thesis
    by (simp add: calculate_driving_times_def)
qed

text \<open>
  So a run whose geocoding succeeds and whose queries do not raise ends in the
  \<open>TypeError\<close> of subscripting \<open>None\<close>, with nothing written.
\<close>

lemma run_calculation_after_geocoding:
  assumes "geocode_address http_get address = Inr (Some coords, origin_st)"
  shows "\<exists>e self'. run_calculation http_get provider draw self address max_time
                      respect_state fs = (Inl e, self', fs)"
proof (cases "calculate_driving_times provider draw
                (self\<lparr>self_origin_address := Some address,
                      self_max_driving_time := Some max_time,
                      self_respect_state_lines := Some respect_state,
                      self_origin_state := origin_st\<rparr>) coords None")
  case (Inl e)
  then show ?thesis using assms by (simp add: run_calculation_def)
next
  case (Inr r)
  then have "r = None"
    using calculate_driving_times_no_frame [of provider draw _ coords None]
    by (cases r) auto
  then show ?thesis using assms Inr by (simp add: run_calculation_def)
qed

end
